(* ===== verification/Prelude.thy ===== *)
theory Prelude
  imports Main "HOL-Library.Word" "HOL-Library.Multiset"
begin

text \<open>
  Shared vocabulary of the development: the machine types of the JNI boundary
  (a 64-bit target, as the Android builds of the bridge), the named theorem
  collections the component theories feed, and the generic facts on words,
  bytes and maps the component proofs share.
\<close>

section \<open>Machine types of the JNI boundary\<close>

type_synonym byte = "8 word"
type_synonym bytes = "byte list"
type_synonym jchar = "16 word"
  \<comment> \<open>a Java \<open>char\<close>: one UTF-16 code unit\<close>
type_synonym jlong = "64 word"
  \<comment> \<open>a Java \<open>long\<close> (C \<open>int64_t\<close>), read as two's complement by \<open>sint\<close>\<close>
type_synonym addr = "64 word"
  \<comment> \<open>a native pointer; \<open>0\<close> is \<open>NULL\<close>\<close>
type_synonym jobj = nat
  \<comment> \<open>identity of a Java object reachable through a \<open>jobject\<close> reference\<close>

text \<open>
  \<open>StringData\<close> of realm-core is a pointer and a size and may be null; it is a
  byte string or nothing.
\<close>

type_synonym string_data = "bytes option"

section \<open>Failures at the boundary\<close>

text \<open>
  Two kinds of failure cross the native side of the bridge. A C++ exception
  (\<open>native_exc\<close>) is caught by \<open>CATCH_STD()\<close> and becomes a pending Java
  exception. Undefined behaviour (\<open>ub\<close>) is not caught by anything: a null or
  dangling pointer dereferenced, a null \<open>jstring\<close> handed to JNI, a
  \<open>std::string\<close> built from a null \<open>char*\<close>, a pointer deleted twice. The model
  makes each of them a value, so that a theorem can say that a call does or
  does not reach it.
\<close>

datatype native_exc =
    BadAlloc  \<comment> \<open>\<open>std::bad_alloc\<close> from \<open>operator new\<close>\<close>
  | RuntimeError string  \<comment> \<open>\<open>std::runtime_error\<close>, e.g. from \<open>JStringAccessor\<close>\<close>
  | SyncError nat  \<comment> \<open>an exception of the sync engine, by error code\<close>

datatype ub =
    NullPointerDeref
  | DanglingPointerDeref
  | NullJString  \<comment> \<open>\<open>GetStringUTFChars\<close> on a null \<open>jstring\<close>\<close>
  | NullCString  \<comment> \<open>\<open>std::string(NULL)\<close> after \<open>GetStringUTFChars\<close> ran out of memory\<close>
  | InvalidDelete  \<comment> \<open>\<open>delete\<close> of a pointer that is not a live object\<close>
  | SessionFreedDuringCall  \<comment> \<open>an engine call running on a session another thread deleted\<close>

named_theorems bridge_simps
  "equations of the JNI entry points and their helpers, used to evaluate a call"

section \<open>Bytes from natural numbers\<close>

text \<open>
  The encoders compute every output byte as a natural number below 256 and
  store it into a byte; reading it back with \<open>unat\<close> gives the number.
\<close>

definition to_byte :: "nat \<Rightarrow> byte" where
  "to_byte n = of_nat n"
  \<comment> \<open>the C cast \<open>char(n)\<close>: the low eight bits\<close>

definition to_jchar :: "nat \<Rightarrow> jchar" where
  "to_jchar n = of_nat n"
  \<comment> \<open>the cast to a UTF-16 unit: the low sixteen bits\<close>

lemma unat_to_byte [simp]:
  "n < 256 \<Longrightarrow> unat (to_byte n) = n"
  by (simp add: to_byte_def unat_of_nat)

lemma to_byte_eq_0_iff [simp]:
  assumes "n < 256"
  shows "to_byte n = 0 \<longleftrightarrow> n = 0"
proof
  assume "to_byte n = 0"
  moreover from assms have "unat (to_byte n) = n" by simp
  ultimately show "n = 0" by simp
next
  assume "n = 0"
  then show "to_byte n = 0" by (simp add: to_byte_def)
qed

lemma to_jchar_unat [simp]:
  "to_jchar (unat u) = u"
  by (simp add: to_jchar_def)

lemma unat_jchar_bound:
  "unat (u :: jchar) < 65536"
  using unsigned_less [of u] by simp

text \<open>Splitting a number into a digit and the rest, as the UTF-8 encoders do.\<close>

lemma digit_div_mod:
  "(k::nat) < m \<Longrightarrow> (q * m + k) div m = q \<and> (q * m + k) mod m = k"
  by simp

lemma three_digits_64:
  "(c::nat) div 4096 * 4096 + c div 64 mod 64 * 64 + c mod 64 = c"
proof -
  have e: "c div 4096 * 4096 = c div 64 div 64 * 64 * 64"
    by (simp add: div_mult2_eq)
  have "c div 4096 * 4096 + c div 64 mod 64 * 64 = (c div 64 div 64 * 64 + c div 64 mod 64) * 64"
    by (simp only: e add_mult_distrib)
  also have "\<dots> = c div 64 * 64"
    by (simp only: div_mult_mod_eq)
  finally show ?thesis by simp
qed

lemma four_digits_64:
  "(c::nat) div 262144 * 262144 + c div 4096 mod 64 * 4096 + c div 64 mod 64 * 64 + c mod 64 = c"
proof -
  have e: "c div 262144 * 262144 = c div 4096 div 64 * 64 * 4096"
    by (simp add: div_mult2_eq)
  have "c div 262144 * 262144 + c div 4096 mod 64 * 4096 = (c div 4096 div 64 * 64 + c div 4096 mod 64) * 4096"
    by (simp only: e add_mult_distrib)
  also have "\<dots> = c div 4096 * 4096"
    by (simp only: div_mult_mod_eq)
  finally have "c div 262144 * 262144 + c div 4096 mod 64 * 4096 = c div 4096 * 4096" .
  moreover have "c div 4096 * 4096 + c div 64 mod 64 * 64 + c mod 64 = c"
    by (rule three_digits_64)
  ultimately show ?thesis by simp
qed

text \<open>A UTF-8 continuation byte \<open>10xxxxxx\<close> carries six bits.\<close>

lemma unat_cont_byte [simp]:
  "unat (to_byte (128 + n mod 64)) = 128 + n mod 64"
proof -
  have "n mod 64 < 64" by simp
  then have "128 + n mod 64 < 256" by linarith
  then show ?thesis by (rule unat_to_byte)
qed

lemma cont_digit [simp]:
  "(128 + n mod 64) div 64 = 2" "(128 + n mod 64) mod 64 = (n::nat) mod 64"
  using digit_div_mod [of "n mod 64" 64 2] by simp_all

section \<open>Lists\<close>

lemma append_single_fun:
  "(@) [x] = (#) x"
  by (rule ext) simp

section \<open>Maps\<close>

lemma dom_upd_fresh_card:
  "finite (dom m) \<Longrightarrow> a \<notin> dom m \<Longrightarrow> card (dom (m(a \<mapsto> v))) = Suc (card (dom m))"
  by simp

lemma dom_delete_finite [intro]:
  "finite (dom m) \<Longrightarrow> finite (dom (m(a := None)))"
  by simp

end
