(* ===== verification/SyncEngine.thy ===== *)
theory SyncEngine
  imports JniStrings
begin

text \<open>
  The collaborators the bridge forwards to, as an interface. The sync engine
  (\<open>realm::sync::Session\<close>) is outside the repository: the bridge only calls
  its constructor, \<open>bind\<close>, \<open>refresh\<close> and \<open>nonsync_transact_notify\<close>. Its state
  is a type variable \<open>'s\<close> and its operations are the fields of the record
  \<open>sync_engine\<close>; every lemma of the bridge holds for every engine. Each call
  returns the engine's new state and possibly an exception it threw.
  Also here: the session wrapper \<open>JNISession\<close> (\<open>objectserver_shared.hpp\<close>),
  \<open>ConvertException\<close> (the body of \<open>CATCH_STD()\<close>, realm-java's \<open>util.cpp\<close>),
  the conversion of the Java version number to the engine's unsigned
  \<open>version_type\<close>, and a recording engine used to run concrete calls.
\<close>

section \<open>Java exceptions and CATCH_STD\<close>

datatype exception_kind = OutOfMemory | FatalError

datatype java_exc = JavaException exception_kind string

text \<open>
  \<open>ConvertException\<close>: \<open>std::bad_alloc\<close> becomes \<open>OutOfMemoryError\<close>, every other
  \<open>std::exception\<close> a fatal error carrying \<open>what()\<close>.
\<close>

definition convert_exception :: "native_exc \<Rightarrow> java_exc" where
  "convert_exception e =
     (case e of
        BadAlloc \<Rightarrow> JavaException OutOfMemory ''std::bad_alloc''
      | RuntimeError msg \<Rightarrow> JavaException FatalError msg
      | SyncError code \<Rightarrow> JavaException FatalError ''sync error'')"

section \<open>The engine interface\<close>

type_synonym version_type = "64 word"
  \<comment> \<open>\<open>sync::version_type\<close>, an unsigned 64-bit integer\<close>

record 's sync_engine =
  open_session :: "addr \<Rightarrow> bytes \<Rightarrow> native_exc + 's"
    \<comment> \<open>\<open>new sync::Session(*client, local_path)\<close>\<close>
  bind_session :: "'s \<Rightarrow> string_data \<Rightarrow> bytes \<Rightarrow> 's \<times> native_exc option"
    \<comment> \<open>\<open>Session::bind(remote_url, access_token)\<close>\<close>
  refresh_session :: "'s \<Rightarrow> string_data \<Rightarrow> 's \<times> native_exc option"
    \<comment> \<open>\<open>Session::refresh(access_token)\<close>\<close>
  notify_session :: "'s \<Rightarrow> version_type \<Rightarrow> 's \<times> native_exc option"
    \<comment> \<open>\<open>Session::nonsync_transact_notify(version)\<close>\<close>

section \<open>The session wrapper\<close>

text \<open>
  \<open>JNISession\<close> owns the engine session, keeps the local path and holds a
  global reference to the Java \<open>Session\<close> object, through which the engine's
  callbacks reach Java.
\<close>

record 's jni_session =
  realm_path :: bytes
  java_session_ref :: jobj
  sync_session :: 's

text \<open>The constructor: an exception of the engine's constructor propagates.\<close>

definition new_jni_session ::
  "'s sync_engine \<Rightarrow> addr \<Rightarrow> bytes \<Rightarrow> jobj \<Rightarrow> native_exc + 's jni_session" where
  "new_jni_session eng client path obj =
     (case open_session eng client path of
        Inl e \<Rightarrow> Inl e
      | Inr s \<Rightarrow> Inr \<lparr>realm_path = path, java_session_ref = obj, sync_session = s\<rparr>)"

section \<open>The version number\<close>

text \<open>
  \<open>nativeNotifyCommitHappened\<close> passes its \<open>jlong version\<close> to a parameter of
  type \<open>version_type\<close>: the implicit C++ conversion from \<open>int64_t\<close> to
  \<open>uint64_t\<close> keeps the bits, so the engine reads the value modulo \<open>2^64\<close>.
\<close>

definition to_version :: "jlong \<Rightarrow> version_type" where
  "to_version v = ucast v"

section \<open>A recording engine\<close>

text \<open>
  An engine whose state is the list of calls it received and which never
  throws. It is no model of the real engine; it makes concrete runs of the
  bridge computable and shows what the bridge forwarded.
\<close>

datatype sync_call =
    SBind string_data bytes
  | SRefresh string_data
  | SNotify version_type

definition recording_engine :: "sync_call list sync_engine" where
  "recording_engine =
     \<lparr>open_session = (\<lambda>_ _. Inr []),
      bind_session = (\<lambda>s url tok. (s @ [SBind url tok], None)),
      refresh_session = (\<lambda>s tok. (s @ [SRefresh tok], None)),
      notify_session = (\<lambda>s v. (s @ [SNotify v], None))\<rparr>"

section \<open>Lemmas\<close>

lemma new_jni_session_Inr:
  "new_jni_session eng client path obj = Inr w \<longleftrightarrow>
     (\<exists>s. open_session eng client path = Inr s \<and> w = \<lparr>realm_path = path, java_session_ref = obj, sync_session = s\<rparr>)"
  by (auto simp: new_jni_session_def split: sum.splits)

lemma new_jni_session_Inl:
  "new_jni_session eng client path obj = Inl e \<longleftrightarrow> open_session eng client path = Inl e"
  by (auto simp: new_jni_session_def split: sum.splits)

end
