(* ===== verification/SessionBridge.thy ===== *)
theory SessionBridge
  imports SyncEngine
begin

text \<open>
  The five JNI entry points of \<open>io_realm_objectserver_session_Session.cpp\<close>
  over an explicit native store. The state \<open>bridge\<close> holds the live
  \<open>sync::Client\<close> objects (created and destroyed by another part of realm-java;
  here only looked at), the live \<open>JNISession\<close> objects by address, and the JNI
  global references they hold. A \<open>jlong\<close> handle is the address of a
  \<open>JNISession\<close> (\<open>reinterpret_cast\<close>, the \<open>SS\<close> and \<open>SC\<close> macros), so a
  handle and an address are the same 64-bit word.

  A call ends in one of two ways: it returns to Java, with a value, possibly a
  pending Java exception (\<open>CATCH_STD()\<close>), and the new state; or it reaches
  undefined behaviour, which nothing catches. The environment of a call says
  what the JVM and the allocator do: whether \<open>GetStringUTFChars\<close> gets its
  buffer and which address \<open>operator new\<close> returns (or that it throws).
\<close>

section \<open>State, environment, outcome\<close>

record 's bridge =
  clients :: "addr set"
  heap :: "addr \<rightharpoonup> 's jni_session"
  global_refs :: "jobj multiset"

record jni_env =
  utf_chars_ok :: bool
  new_result :: "addr option"

datatype ('a, 's) jni_outcome =
    Returned 'a "java_exc option" "'s bridge"
  | Undefined ub

text \<open>\<open>CATCH_STD()\<close>: the exception becomes a pending Java exception and the
  function returns its default value (\<open>0\<close> for a handle, nothing for \<open>void\<close>).\<close>

definition catch_std :: "'a \<Rightarrow> native_exc \<Rightarrow> 's bridge \<Rightarrow> ('a, 's) jni_outcome" where
  "catch_std dflt e st = Returned dflt (Some (convert_exception e)) st"

section \<open>Helpers, one per group of source lines\<close>

text \<open>\<open>SC(clientPointer)\<close> and the test for \<open>NULL\<close>: a null client pointer is
  the only client the code rejects.\<close>

definition sync_client_of :: "jlong \<Rightarrow> addr option" where
  "sync_client_of clientPointer = (if clientPointer = 0 then None else Some clientPointer)"

text \<open>\<open>SS(sessionPointer)->get_session()\<close>: the dereference of the handle.\<close>

definition get_session :: "'s bridge \<Rightarrow> jlong \<Rightarrow> ub + 's jni_session" where
  "get_session st sessionPointer =
     (if sessionPointer = 0 then Inl NullPointerDeref
      else case heap st sessionPointer of
             None \<Rightarrow> Inl DanglingPointerDeref
           | Some w \<Rightarrow> Inr w)"

text \<open>A forwarded call: the engine's session changes in place, and an exception
  it throws is caught by \<open>CATCH_STD()\<close>.\<close>

definition forward_result ::
  "'s bridge \<Rightarrow> jlong \<Rightarrow> 's jni_session \<Rightarrow> 's \<times> native_exc option \<Rightarrow> (unit, 's) jni_outcome" where
  "forward_result st sessionPointer w r =
     (case r of
        (s', ex) \<Rightarrow>
          (let st' = st\<lparr>heap := (heap st)(sessionPointer \<mapsto> w\<lparr>sync_session := s'\<rparr>)\<rparr> in
           case ex of
             None \<Rightarrow> Returned () None st'
           | Some e \<Rightarrow> catch_std () e st'))"

text \<open>\<open>new JNISession(sync_client, local_path, obj, env)\<close> and the
  \<open>reinterpret_cast<jlong>\<close> of its address. \<open>operator new\<close> runs first; the
  constructor then dereferences the client pointer.\<close>

definition new_session_handle ::
  "'s sync_engine \<Rightarrow> jni_env \<Rightarrow> addr \<Rightarrow> bytes \<Rightarrow> jobj \<Rightarrow> 's bridge \<Rightarrow> (jlong, 's) jni_outcome" where
  "new_session_handle eng env sync_client local_path obj st =
     (case new_result env of
        None \<Rightarrow> catch_std 0 BadAlloc st
      | Some a \<Rightarrow>
          if sync_client \<notin> clients st then Undefined DanglingPointerDeref
          else
            (case new_jni_session eng sync_client local_path obj of
               Inl e \<Rightarrow> catch_std 0 e st
             | Inr w \<Rightarrow>
                 Returned a None
                   (st\<lparr>heap := (heap st)(a \<mapsto> w),
                       global_refs := global_refs st + {#java_session_ref w#}\<rparr>)))"

section \<open>The JNI entry points\<close>

definition nativeCreateSession ::
  "'s sync_engine \<Rightarrow> jni_env \<Rightarrow> jobj \<Rightarrow> jlong \<Rightarrow> jstring \<Rightarrow> 's bridge \<Rightarrow> (jlong, 's) jni_outcome" where
  "nativeCreateSession eng env obj clientPointer localRealmPath st =
     (case sync_client_of clientPointer of
        None \<Rightarrow> Returned 0 None st
      | Some sync_client \<Rightarrow>
          (case std_string_of_utf_chars (utf_chars_ok env) localRealmPath of
             Inl u \<Rightarrow> Undefined u
           | Inr local_path \<Rightarrow> new_session_handle eng env sync_client local_path obj st))"

definition nativeBind ::
  "'s sync_engine \<Rightarrow> jni_env \<Rightarrow> jlong \<Rightarrow> jstring \<Rightarrow> jstring \<Rightarrow> 's bridge \<Rightarrow> (unit, 's) jni_outcome" where
  "nativeBind eng env sessionPointer remoteUrl accessToken st =
     (case std_string_of_utf_chars (utf_chars_ok env) accessToken of
        Inl u \<Rightarrow> Undefined u
      | Inr access_token \<Rightarrow>
          (case jstring_accessor remoteUrl of
             Inl e \<Rightarrow> catch_std () e st
           | Inr remote_url \<Rightarrow>
               (case get_session st sessionPointer of
                  Inl u \<Rightarrow> Undefined u
                | Inr w \<Rightarrow>
                    forward_result st sessionPointer w
                      (bind_session eng (sync_session w) remote_url access_token))))"

text \<open>\<open>delete session\<close>: deleting \<open>NULL\<close> does nothing; deleting anything but
  a live object is undefined. The destructor releases the engine session and
  the global reference.\<close>

definition nativeUnbind :: "jlong \<Rightarrow> 's bridge \<Rightarrow> (unit, 's) jni_outcome" where
  "nativeUnbind sessionPointer st =
     (if sessionPointer = 0 then Returned () None st
      else
        (case heap st sessionPointer of
           None \<Rightarrow> Undefined InvalidDelete
         | Some w \<Rightarrow>
             Returned () None
               (st\<lparr>heap := (heap st)(sessionPointer := None),
                   global_refs := global_refs st - {#java_session_ref w#}\<rparr>)))"

definition nativeRefresh ::
  "'s sync_engine \<Rightarrow> jlong \<Rightarrow> jstring \<Rightarrow> 's bridge \<Rightarrow> (unit, 's) jni_outcome" where
  "nativeRefresh eng sessionPointer accessToken st =
     (case jstring_accessor accessToken of
        Inl e \<Rightarrow> catch_std () e st
      | Inr access_token \<Rightarrow>
          (case get_session st sessionPointer of
             Inl u \<Rightarrow> Undefined u
           | Inr w \<Rightarrow>
               forward_result st sessionPointer w
                 (refresh_session eng (sync_session w) access_token)))"

definition nativeNotifyCommitHappened ::
  "'s sync_engine \<Rightarrow> jlong \<Rightarrow> jlong \<Rightarrow> 's bridge \<Rightarrow> (unit, 's) jni_outcome" where
  "nativeNotifyCommitHappened eng sessionPointer version st =
     (case get_session st sessionPointer of
        Inl u \<Rightarrow> Undefined u
      | Inr w \<Rightarrow>
          forward_result st sessionPointer w
            (notify_session eng (sync_session w) (to_version version)))"

section \<open>Well-formed states\<close>

text \<open>
  No live wrapper sits at address \<open>0\<close> or at a client's address, there are
  finitely many, and the global references held are exactly one per live
  wrapper, to its Java object.
\<close>

definition live_refs :: "(addr \<rightharpoonup> 's jni_session) \<Rightarrow> jobj multiset" where
  "live_refs h = (\<Sum>a\<in>dom h. {#java_session_ref (the (h a))#})"

definition bridge_inv :: "'s bridge \<Rightarrow> bool" where
  "bridge_inv st \<longleftrightarrow>
     0 \<notin> dom (heap st) \<and> finite (dom (heap st)) \<and> dom (heap st) \<inter> clients st = {} \<and>
     global_refs st = live_refs (heap st)"

text \<open>What \<open>operator new\<close> promises: memory that is not in use and not \<open>NULL\<close>.\<close>

definition fresh_alloc :: "jni_env \<Rightarrow> 's bridge \<Rightarrow> bool" where
  "fresh_alloc env st \<longleftrightarrow>
     (case new_result env of
        None \<Rightarrow> True
      | Some a \<Rightarrow> a \<noteq> 0 \<and> a \<notin> dom (heap st) \<and> a \<notin> clients st)"

lemmas bridge_defs [bridge_simps] =
  catch_std_def sync_client_of_def get_session_def forward_result_def new_session_handle_def
  nativeCreateSession_def nativeBind_def nativeUnbind_def nativeRefresh_def
  nativeNotifyCommitHappened_def

section \<open>Lemmas on the store\<close>

lemma live_refs_update_same:
  assumes "h a = Some w" "java_session_ref w' = java_session_ref w"
  shows "live_refs (h(a \<mapsto> w')) = live_refs h"
proof -
  have d: "dom (h(a \<mapsto> w')) = dom h" using assms(1) by auto
  have "\<And>b. b \<in> dom h \<Longrightarrow> java_session_ref (the ((h(a \<mapsto> w')) b)) = java_session_ref (the (h b))"
    using assms by auto
  then show ?thesis
    unfolding live_refs_def d by (intro sum.cong refl) simp
qed

lemma live_refs_insert:
  assumes "finite (dom h)" "a \<notin> dom h"
  shows "live_refs (h(a \<mapsto> w)) = live_refs h + {#java_session_ref w#}"
proof -
  have "live_refs (h(a \<mapsto> w)) = {#java_session_ref w#} + (\<Sum>b\<in>dom h. {#java_session_ref (the ((h(a \<mapsto> w)) b))#})"
    using assms by (simp add: live_refs_def sum.insert)
  also have "(\<Sum>b\<in>dom h. {#java_session_ref (the ((h(a \<mapsto> w)) b))#}) = live_refs h"
  proof -
    have "\<And>b. b \<in> dom h \<Longrightarrow> java_session_ref (the ((h(a \<mapsto> w)) b)) = java_session_ref (the (h b))"
      using assms(2) by auto
    then show ?thesis unfolding live_refs_def by (intro sum.cong refl) simp
  qed
  finally show ?thesis by (simp only: add.commute)
qed

lemma live_refs_delete:
  assumes "finite (dom h)" "h a = Some w"
  shows "live_refs (h(a := None)) = live_refs h - {#java_session_ref w#}"
proof -
  have a: "a \<in> dom h" using assms(2) by auto
  have "live_refs h = {#java_session_ref w#} + (\<Sum>b\<in>dom h - {a}. {#java_session_ref (the (h b))#})"
    unfolding live_refs_def using assms a by (simp add: sum.remove)
  moreover have "live_refs (h(a := None)) = (\<Sum>b\<in>dom h - {a}. {#java_session_ref (the (h b))#})"
  proof -
    have d: "dom (h(a := None)) = dom h - {a}" by auto
    have "\<And>b. b \<in> dom h - {a} \<Longrightarrow> java_session_ref (the ((h(a := None)) b)) = java_session_ref (the (h b))"
      by auto
    then show ?thesis unfolding live_refs_def d by (intro sum.cong refl) simp
  qed
  ultimately show ?thesis by simp
qed


lemma get_session_live [simp]:
  "p \<noteq> 0 \<Longrightarrow> heap st p = Some w \<Longrightarrow> get_session st p = Inr w"
  by (simp add: get_session_def)

lemma get_session_Inr_iff:
  "get_session st p = Inr w \<longleftrightarrow> p \<noteq> 0 \<and> heap st p = Some w"
  by (auto simp: get_session_def split: option.splits)

lemma forward_result_eq [simp]:
  "forward_result st p w r =
     Returned () (map_option convert_exception (snd r))
       (st\<lparr>heap := (heap st)(p \<mapsto> w\<lparr>sync_session := fst r\<rparr>)\<rparr>)"
  by (cases r, cases "snd r") (simp_all add: forward_result_def catch_std_def)

text \<open>A forwarding call changes at most the engine state of the session it
  was given.\<close>

definition session_step :: "jlong \<Rightarrow> 's bridge \<Rightarrow> 's bridge \<Rightarrow> bool" where
  "session_step p st st' \<longleftrightarrow>
     st' = st \<or>
     (\<exists>w s'. heap st p = Some w \<and> st' = st\<lparr>heap := (heap st)(p \<mapsto> w\<lparr>sync_session := s'\<rparr>)\<rparr>)"

lemma session_step_refl [simp]: "session_step p st st"
  by (simp add: session_step_def)

lemma session_step_update:
  "heap st p = Some w \<Longrightarrow> session_step p st (st\<lparr>heap := (heap st)(p \<mapsto> w\<lparr>sync_session := s'\<rparr>)\<rparr>)"
  by (auto simp: session_step_def)

lemma nativeBind_session_step:
  "nativeBind eng env p url tok st = Returned x ex st' \<Longrightarrow> session_step p st st'"
  by (auto simp: nativeBind_def catch_std_def get_session_Inr_iff split: sum.splits intro: session_step_update)

lemma nativeRefresh_session_step:
  "nativeRefresh eng p tok st = Returned x ex st' \<Longrightarrow> session_step p st st'"
  by (auto simp: nativeRefresh_def catch_std_def get_session_Inr_iff split: sum.splits intro: session_step_update)

lemma nativeNotify_session_step:
  "nativeNotifyCommitHappened eng p v st = Returned x ex st' \<Longrightarrow> session_step p st st'"
  by (auto simp: nativeNotifyCommitHappened_def get_session_Inr_iff split: sum.splits intro: session_step_update)

lemma session_step_frame:
  "session_step p st st' \<Longrightarrow>
     clients st' = clients st \<and> global_refs st' = global_refs st \<and> dom (heap st') = dom (heap st) \<and>
     (\<forall>q. q \<noteq> p \<longrightarrow> heap st' q = heap st q) \<and>
     (\<forall>q w'. heap st' q = Some w' \<longrightarrow>
        (\<exists>w. heap st q = Some w \<and> realm_path w' = realm_path w \<and> java_session_ref w' = java_session_ref w))"
  by (auto simp: session_step_def split: if_splits)

lemma session_step_inv:
  assumes "session_step p st st'" "bridge_inv st"
  shows "bridge_inv st'"
proof -
  from assms(1) have f: "clients st' = clients st" "dom (heap st') = dom (heap st)"
    by (simp_all add: session_step_frame)
  from assms have "global_refs st' = live_refs (heap st')"
    by (auto simp: session_step_def bridge_inv_def live_refs_update_same)
  with f assms(2) show ?thesis by (simp add: bridge_inv_def)
qed

lemma nativeCreate_Returned:
  assumes "nativeCreateSession eng env obj cp path st = Returned h ex st'"
  shows "(h = 0 \<and> st' = st) \<or>
    (\<exists>w. new_result env = Some h \<and> cp \<noteq> 0 \<and> cp \<in> clients st \<and> ex = None \<and>
       st' = st\<lparr>heap := (heap st)(h \<mapsto> w), global_refs := global_refs st + {#java_session_ref w#}\<rparr>)"
  using assms
  by (auto simp: nativeCreateSession_def new_session_handle_def sync_client_of_def catch_std_def
           split: if_splits sum.splits option.splits)

lemma nativeCreate_inv:
  assumes "bridge_inv st" "fresh_alloc env st"
    and "nativeCreateSession eng env obj cp path st = Returned h ex st'"
  shows "bridge_inv st'"
  using nativeCreate_Returned [OF assms(3)]
proof
  assume "h = 0 \<and> st' = st"
  with assms(1) show ?thesis by simp
next
  assume "\<exists>w. new_result env = Some h \<and> cp \<noteq> 0 \<and> cp \<in> clients st \<and> ex = None \<and>
       st' = st\<lparr>heap := (heap st)(h \<mapsto> w), global_refs := global_refs st + {#java_session_ref w#}\<rparr>"
  then obtain w where h: "new_result env = Some h"
    and st': "st' = st\<lparr>heap := (heap st)(h \<mapsto> w), global_refs := global_refs st + {#java_session_ref w#}\<rparr>"
    by blast
  from assms(2) h have fresh: "h \<noteq> 0" "h \<notin> dom (heap st)" "h \<notin> clients st"
    by (simp_all add: fresh_alloc_def)
  with assms(1) st' show ?thesis
    by (auto simp: bridge_inv_def live_refs_insert)
qed

lemma nativeUnbind_Returned:
  assumes "nativeUnbind p st = Returned x ex st'"
  shows "ex = None \<and> ((p = 0 \<and> st' = st) \<or>
    (\<exists>w. p \<noteq> 0 \<and> heap st p = Some w \<and>
       st' = st\<lparr>heap := (heap st)(p := None), global_refs := global_refs st - {#java_session_ref w#}\<rparr>))"
  using assms by (auto simp: nativeUnbind_def split: if_splits option.splits)

lemma nativeUnbind_inv:
  assumes "bridge_inv st" "nativeUnbind p st = Returned x ex st'"
  shows "bridge_inv st'"
proof -
  from nativeUnbind_Returned [OF assms(2)]
  consider "st' = st"
    | w where "heap st p = Some w"
        "st' = st\<lparr>heap := (heap st)(p := None), global_refs := global_refs st - {#java_session_ref w#}\<rparr>"
    by blast
  then show ?thesis
  proof cases
    case 1
    with assms(1) show ?thesis by simp
  next
    case 2
    with assms(1) show ?thesis
      by (auto simp: bridge_inv_def live_refs_delete)
  qed
qed

section \<open>Properties of the entry points\<close>

text \<open>
  C8: \<open>nativeCreateSession\<close> with a null client pointer returns the handle \<open>0\<close>, raises no Java exception and changes nothing (lines 45-48), whatever the path.
\<close>

theorem create_null_client:
  "nativeCreateSession eng env obj 0 path st = Returned 0 None st"
  by (simp add: nativeCreateSession_def sync_client_of_def)

text \<open>
  C15: With a live client, a path string the JVM can convert, memory from \<open>operator new\<close> at address \<open>a\<close> and an engine that opens the session, \<open>nativeCreateSession\<close> returns \<open>a\<close> as the handle and stores a wrapper holding the modified UTF-8 path, the Java object and the engine session, taking one global reference.
\<close>

theorem create_success:
  assumes "cp \<noteq> 0" "cp \<in> clients st" "utf_chars_ok env" "new_result env = Some a"
    and "open_session eng cp (mutf8 us) = Inr s"
  shows "nativeCreateSession eng env obj cp (JStr us) st =
     Returned a None
       (st\<lparr>heap := (heap st)(a \<mapsto> \<lparr>realm_path = mutf8 us, java_session_ref = obj, sync_session = s\<rparr>),
           global_refs := global_refs st + {#obj#}\<rparr>)"
  using assms
  by (simp add: nativeCreateSession_def sync_client_of_def utf_chars_ok_string
      new_session_handle_def new_jni_session_def)

theorem create_success_witness:
  "nativeCreateSession recording_engine \<lparr>utf_chars_ok = True, new_result = Some 0x20\<rparr> 7 0x10
     (JStr [0x61]) \<lparr>clients = {0x10}, heap = Map.empty, global_refs = {#}\<rparr> =
   Returned 0x20 None
     \<lparr>clients = {0x10}, heap = [0x20 \<mapsto> \<lparr>realm_path = mutf8 [0x61], java_session_ref = 7, sync_session = []\<rparr>],
      global_refs = {#7#}\<rparr>"
  using create_success [of "0x10" "\<lparr>clients = {0x10}, heap = Map.empty, global_refs = {#}\<rparr>"
      "\<lparr>utf_chars_ok = True, new_result = Some 0x20\<rparr>" "0x20" recording_engine "[0x61]" "[]" 7]
  by (simp add: recording_engine_def)

text \<open>
  C16: In a well-formed state and with an allocator that returns fresh memory, a returning \<open>nativeCreateSession\<close> gives handle \<open>0\<close> exactly when it left the state unchanged; a non-zero handle comes with no pending exception and names a wrapper that did not exist before and exists now.
\<close>

theorem create_handle_null_iff_unchanged:
  assumes "bridge_inv st" "fresh_alloc env st"
    and "nativeCreateSession eng env obj cp path st = Returned h ex st'"
  shows "(h = 0 \<longleftrightarrow> st' = st) \<and> (h \<noteq> 0 \<longrightarrow> ex = None \<and> h \<notin> dom (heap st) \<and> h \<in> dom (heap st'))"
  using nativeCreate_Returned [OF assms(3)]
proof
  assume "h = 0 \<and> st' = st"
  then show ?thesis by simp
next
  assume "\<exists>w. new_result env = Some h \<and> cp \<noteq> 0 \<and> cp \<in> clients st \<and> ex = None \<and>
       st' = st\<lparr>heap := (heap st)(h \<mapsto> w), global_refs := global_refs st + {#java_session_ref w#}\<rparr>"
  then obtain w where h: "new_result env = Some h" and ex: "ex = None"
    and st': "st' = st\<lparr>heap := (heap st)(h \<mapsto> w), global_refs := global_refs st + {#java_session_ref w#}\<rparr>"
    by blast
  from assms(2) h have fresh: "h \<noteq> 0" "h \<notin> dom (heap st)"
    by (simp_all add: fresh_alloc_def)
  from st' have "heap st' h = Some w" by simp
  with fresh have "st' \<noteq> st" by auto
  with fresh ex st' show ?thesis by simp
qed

theorem create_handle_witness:
  "let st = \<lparr>clients = {0x10}, heap = Map.empty, global_refs = {#}\<rparr>;
       env = \<lparr>utf_chars_ok = True, new_result = Some 0x20\<rparr> in
   bridge_inv st \<and> fresh_alloc env st \<and>
   (case nativeCreateSession recording_engine env 7 0x10 (JStr [0x61]) st of
      Returned h ex st' \<Rightarrow> (h = 0 \<longleftrightarrow> st' = st) \<and> (h \<noteq> 0 \<longrightarrow> ex = None \<and> h \<notin> dom (heap st) \<and> h \<in> dom (heap st'))
    | Undefined u \<Rightarrow> False)"
proof -
  let ?st = "\<lparr>clients = {0x10::addr}, heap = Map.empty, global_refs = {#}\<rparr> :: sync_call list bridge"
  let ?env = "\<lparr>utf_chars_ok = True, new_result = Some (0x20::addr)\<rparr>"
  have i: "bridge_inv ?st" by (simp add: bridge_inv_def live_refs_def)
  have f: "fresh_alloc ?env ?st" by (simp add: fresh_alloc_def)
  have r: "nativeCreateSession recording_engine ?env 7 0x10 (JStr [0x61]) ?st =
     Returned 0x20 None (?st\<lparr>heap := [0x20 \<mapsto> \<lparr>realm_path = mutf8 [0x61], java_session_ref = 7, sync_session = []\<rparr>],
       global_refs := {#7#}\<rparr>)"
    by (simp add: nativeCreateSession_def sync_client_of_def utf_chars_ok_string
        new_session_handle_def new_jni_session_def recording_engine_def)
  show ?thesis
    using create_handle_null_iff_unchanged [OF i f r] i f r by (simp add: Let_def)
qed


text \<open>
  C3: \<open>nativeBind\<close> with a remote URL that is not well-formed UTF-16 returns with a pending Java exception and changes nothing, for every handle, even a stale one: the URL is converted (line 71) before the handle is dereferenced (line 75).
\<close>

theorem bind_malformed_url_throws:
  assumes "\<not> valid_utf16 u" "utf_chars_ok env"
  shows "nativeBind eng env p (JStr u) (JStr t) st =
     Returned () (Some (JavaException FatalError ''Failure when converting to UTF-8'')) st"
  using assms
  by (simp add: nativeBind_def utf_chars_ok_string jstring_accessor_invalid catch_std_def
      convert_exception_def)

theorem bind_malformed_url_witness:
  "nativeBind recording_engine \<lparr>utf_chars_ok = True, new_result = None\<rparr> 0x99 (JStr [0xDC00]) (JStr [0x74])
     \<lparr>clients = {}, heap = Map.empty, global_refs = {#}\<rparr> =
   Returned () (Some (JavaException FatalError ''Failure when converting to UTF-8''))
     \<lparr>clients = {}, heap = Map.empty, global_refs = {#}\<rparr>"
  using bind_malformed_url_throws [of "[0xDC00]" "\<lparr>utf_chars_ok = True, new_result = None\<rparr>"
      recording_engine "0x99" "[0x74]" "\<lparr>clients = {}, heap = Map.empty, global_refs = {#}\<rparr>"]
  by (simp add: is_high_surrogate_def is_low_surrogate_def)

text \<open>
  C18: \<open>nativeBind\<close> with a null access token reaches undefined behaviour (\<open>GetStringUTFChars\<close> on null, line 67) instead of raising a Java exception.
\<close>

theorem bind_null_token_undefined:
  "nativeBind eng env p url JNull st = Undefined NullJString"
  by (simp add: nativeBind_def std_string_of_utf_chars_def)

text \<open>
  C17: On a live handle with a convertible URL, \<open>nativeBind\<close> forwards exactly the converted URL and the modified UTF-8 token to the engine's \<open>bind\<close>, stores the engine's new state in that wrapper and turns an engine exception into a pending Java exception; the token is never validated.
\<close>

theorem bind_forwards:
  assumes "p \<noteq> 0" "heap st p = Some w" "utf_chars_ok env" "jstring_accessor url = Inr u"
  shows "nativeBind eng env p url (JStr t) st =
     (case bind_session eng (sync_session w) u (mutf8 t) of
        (s', ex) \<Rightarrow>
          Returned () (map_option convert_exception ex)
            (st\<lparr>heap := (heap st)(p \<mapsto> w\<lparr>sync_session := s'\<rparr>)\<rparr>))"
  using assms
  by (simp add: nativeBind_def utf_chars_ok_string split: prod.splits)

theorem bind_forwards_witness:
  "let w = \<lparr>realm_path = [], java_session_ref = 7, sync_session = []\<rparr>;
       st = \<lparr>clients = {}, heap = [0x20 \<mapsto> w], global_refs = {#7#}\<rparr> in
   nativeBind recording_engine \<lparr>utf_chars_ok = True, new_result = None\<rparr> 0x20 (JStr [0x75]) (JStr [0xD800]) st =
   Returned () None
     (st\<lparr>heap := [0x20 \<mapsto> w\<lparr>sync_session := [SBind (Some [0x75]) (mutf8 [0xD800])]\<rparr>]\<rparr>)"
proof -
  have a: "jstring_accessor (JStr [0x75]) = Inr (Some [0x75])"
    by (simp add: jstring_accessor_def to_byte_def)
  show ?thesis
    using bind_forwards [OF _ _ _ a, of "0x20" "\<lparr>clients = {}, heap = [0x20 \<mapsto> \<lparr>realm_path = [], java_session_ref = 7, sync_session = []\<rparr>], global_refs = {#7#}\<rparr>"
        "\<lparr>realm_path = [], java_session_ref = 7, sync_session = []\<rparr>"
        "\<lparr>utf_chars_ok = True, new_result = None\<rparr>" recording_engine "[0xD800]"]
    by (simp add: recording_engine_def Let_def)
qed

text \<open>
  C22: A returning \<open>nativeRefresh\<close> keeps every wrapper alive with its path and Java reference, changes no other handle's wrapper and no global reference: the session needs no new bind afterwards.
\<close>

theorem refresh_keeps_session:
  assumes "nativeRefresh eng p tok st = Returned x ex st'"
  shows "clients st' = clients st \<and> global_refs st' = global_refs st \<and> dom (heap st') = dom (heap st) \<and>
    (\<forall>q. q \<noteq> p \<longrightarrow> heap st' q = heap st q) \<and>
    (\<forall>q w'. heap st' q = Some w' \<longrightarrow>
        (\<exists>w. heap st q = Some w \<and> realm_path w' = realm_path w \<and> java_session_ref w' = java_session_ref w))"
  using session_step_frame [OF nativeRefresh_session_step [OF assms]] by blast


theorem refresh_keeps_session_witness:
  "let w = \<lparr>realm_path = [0x61], java_session_ref = 7, sync_session = []\<rparr>;
       st = \<lparr>clients = {0x10}, heap = [0x20 \<mapsto> w], global_refs = {#7#}\<rparr>;
       st' = st\<lparr>heap := [0x20 \<mapsto> w\<lparr>sync_session := [SRefresh (Some [0x6B])]\<rparr>]\<rparr> in
   nativeRefresh recording_engine 0x20 (JStr [0x6B]) st = Returned () None st' \<and>
   dom (heap st') = dom (heap st) \<and>
   (\<forall>q w'. heap st' q = Some w' \<longrightarrow>
      (\<exists>w. heap st q = Some w \<and> realm_path w' = realm_path w \<and> java_session_ref w' = java_session_ref w))"
proof -
  let ?w = "\<lparr>realm_path = [0x61], java_session_ref = 7, sync_session = []\<rparr> :: sync_call list jni_session"
  let ?st = "\<lparr>clients = {0x10}, heap = [0x20 \<mapsto> ?w], global_refs = {#7#}\<rparr> :: sync_call list bridge"
  let ?st' = "?st\<lparr>heap := [0x20 \<mapsto> ?w\<lparr>sync_session := [SRefresh (Some [0x6B])]\<rparr>]\<rparr>"
  have r: "nativeRefresh recording_engine 0x20 (JStr [0x6B]) ?st = Returned () None ?st'"
    by (simp add: nativeRefresh_def jstring_accessor_def to_byte_def recording_engine_def)
  show ?thesis
    using refresh_keeps_session [OF r] r by (simp add: Let_def)
qed

text \<open>
  C19: The handle \<open>0\<close> that a failed \<open>nativeCreateSession\<close> returns is dereferenced by \<open>nativeBind\<close>, \<open>nativeRefresh\<close> and \<open>nativeNotifyCommitHappened\<close> (undefined behaviour, nothing checks it), while \<open>nativeUnbind\<close> of \<open>0\<close> does nothing.
\<close>

theorem null_handle_undefined:
  assumes "utf_chars_ok env" "valid_utf16 u" "valid_utf16 t"
  shows "nativeBind eng env 0 (JStr u) (JStr t) st = Undefined NullPointerDeref \<and>
    nativeRefresh eng 0 (JStr t) st = Undefined NullPointerDeref \<and>
    nativeNotifyCommitHappened eng 0 v st = Undefined NullPointerDeref \<and>
    nativeUnbind 0 st = Returned () None st"
proof -
  from assms(2) obtain bu where u: "jstring_accessor (JStr u) = Inr (Some bu)"
    using jstring_accessor_valid by blast
  from assms(3) obtain bt where t: "jstring_accessor (JStr t) = Inr (Some bt)"
    using jstring_accessor_valid by blast
  from assms(1) u t show ?thesis
    by (simp add: nativeBind_def nativeRefresh_def nativeNotifyCommitHappened_def nativeUnbind_def
        get_session_def utf_chars_ok_string)
qed

theorem null_handle_witness:
  "nativeBind recording_engine \<lparr>utf_chars_ok = True, new_result = None\<rparr> 0 (JStr [0x75]) (JStr [0x74])
     \<lparr>clients = {}, heap = Map.empty, global_refs = {#}\<rparr> = Undefined NullPointerDeref \<and>
   nativeRefresh recording_engine 0 (JStr [0x74]) \<lparr>clients = {}, heap = Map.empty, global_refs = {#}\<rparr> =
     Undefined NullPointerDeref \<and>
   nativeNotifyCommitHappened recording_engine 0 5 \<lparr>clients = {}, heap = Map.empty, global_refs = {#}\<rparr> =
     Undefined NullPointerDeref \<and>
   nativeUnbind 0 (\<lparr>clients = {}, heap = Map.empty, global_refs = {#}\<rparr> :: sync_call list bridge) =
     Returned () None \<lparr>clients = {}, heap = Map.empty, global_refs = {#}\<rparr>"
  by (rule null_handle_undefined) (simp_all add: is_high_surrogate_def is_low_surrogate_def)

text \<open>
  C4: After \<open>nativeUnbind\<close> of a live handle, notifying or refreshing through the same handle dereferences freed memory and a second \<open>nativeUnbind\<close> deletes it twice.
\<close>

theorem use_after_unbind:
  assumes "p \<noteq> 0" "heap st p = Some w" "nativeUnbind p st = Returned () ex st'"
  shows "nativeNotifyCommitHappened eng p v st' = Undefined DanglingPointerDeref \<and>
    nativeRefresh eng p JNull st' = Undefined DanglingPointerDeref \<and>
    nativeUnbind p st' = Undefined InvalidDelete"
proof -
  from assms have "heap st' p = None"
    by (auto simp: nativeUnbind_def)
  with assms(1) show ?thesis
    by (simp add: nativeNotifyCommitHappened_def nativeRefresh_def nativeUnbind_def get_session_def
        jstring_accessor_def)
qed

theorem use_after_unbind_witness:
  "let st = \<lparr>clients = {}, heap = [0x20 \<mapsto> \<lparr>realm_path = [], java_session_ref = 7, sync_session = []\<rparr>],
             global_refs = {#7#}\<rparr>;
       st' = \<lparr>clients = {}, heap = Map.empty, global_refs = {#}\<rparr> in
   nativeUnbind 0x20 st = Returned () None st' \<and>
   nativeNotifyCommitHappened recording_engine 0x20 5 st' = Undefined DanglingPointerDeref \<and>
   nativeRefresh recording_engine 0x20 JNull st' = Undefined DanglingPointerDeref \<and>
   nativeUnbind 0x20 st' = Undefined InvalidDelete"
proof -
  let ?st = "\<lparr>clients = {}, heap = [0x20 \<mapsto> \<lparr>realm_path = [], java_session_ref = 7, sync_session = []\<rparr>],
             global_refs = {#7#}\<rparr> :: sync_call list bridge"
  let ?st' = "\<lparr>clients = {}, heap = Map.empty, global_refs = {#}\<rparr> :: sync_call list bridge"
  have u: "nativeUnbind 0x20 ?st = Returned () None ?st'"
    by (simp add: nativeUnbind_def)
  show ?thesis
    using use_after_unbind [OF _ _ u, of "\<lparr>realm_path = [], java_session_ref = 7, sync_session = []\<rparr>"
        recording_engine 5] u
    by (simp add: Let_def)
qed

text \<open>
  C20: the error branches of \<open>nativeCreateSession\<close> with a non-null client and
  a convertible path: when \<open>operator new\<close> throws, the call returns \<open>0\<close> with a
  pending \<open>OutOfMemoryError\<close>; when the engine refuses to open the session, it
  returns \<open>0\<close> with the converted exception; in both cases nothing is
  allocated. A client pointer that is not a live client is dereferenced by the
  constructor: undefined behaviour.
\<close>

theorem create_exception_paths:
  assumes "cp \<noteq> 0" "utf_chars_ok env"
  shows "(new_result env = None \<longrightarrow>
      nativeCreateSession eng env obj cp (JStr us) st =
        Returned 0 (Some (JavaException OutOfMemory ''std::bad_alloc'')) st) \<and>
    (\<forall>a e. new_result env = Some a \<longrightarrow> cp \<in> clients st \<longrightarrow> open_session eng cp (mutf8 us) = Inl e \<longrightarrow>
      nativeCreateSession eng env obj cp (JStr us) st = Returned 0 (Some (convert_exception e)) st) \<and>
    (\<forall>a. new_result env = Some a \<longrightarrow> cp \<notin> clients st \<longrightarrow>
      nativeCreateSession eng env obj cp (JStr us) st = Undefined DanglingPointerDeref)"
  using assms
  by (auto simp: nativeCreateSession_def sync_client_of_def utf_chars_ok_string new_session_handle_def
      new_jni_session_def catch_std_def convert_exception_def)

theorem create_exception_witness:
  "nativeCreateSession (recording_engine\<lparr>open_session := (\<lambda>_ _. Inl (SyncError 3))\<rparr>)
     \<lparr>utf_chars_ok = True, new_result = Some 0x20\<rparr> 7 0x10 (JStr [0x61])
     (\<lparr>clients = {0x10}, heap = Map.empty, global_refs = {#}\<rparr> :: sync_call list bridge) =
   Returned 0 (Some (JavaException FatalError ''sync error''))
     \<lparr>clients = {0x10}, heap = Map.empty, global_refs = {#}\<rparr>"
  using create_exception_paths [of "0x10" "\<lparr>utf_chars_ok = True, new_result = Some 0x20\<rparr>"
      "recording_engine\<lparr>open_session := (\<lambda>_ _. Inl (SyncError 3))\<rparr>" 7 "[0x61]"
      "\<lparr>clients = {0x10}, heap = Map.empty, global_refs = {#}\<rparr>"]
  by (simp add: convert_exception_def)

text \<open>
  C21: \<open>nativeRefresh\<close> with a null access token raises nothing: the null
  \<open>StringData\<close> is forwarded to the engine's \<open>refresh\<close> (lines 95-98).
\<close>

theorem refresh_null_token_forwarded:
  assumes "p \<noteq> 0" "heap st p = Some w"
  shows "nativeRefresh eng p JNull st =
    Returned () (map_option convert_exception (snd (refresh_session eng (sync_session w) None)))
      (st\<lparr>heap := (heap st)(p \<mapsto> w\<lparr>sync_session := fst (refresh_session eng (sync_session w) None)\<rparr>)\<rparr>)"
  using assms by (simp add: nativeRefresh_def jstring_accessor_def)

theorem refresh_null_token_witness:
  "nativeRefresh recording_engine 0x20 JNull
     \<lparr>clients = {}, heap = [0x20 \<mapsto> \<lparr>realm_path = [], java_session_ref = 7, sync_session = []\<rparr>],
      global_refs = {#7#}\<rparr> =
   Returned () None
     \<lparr>clients = {}, heap = [0x20 \<mapsto> \<lparr>realm_path = [], java_session_ref = 7, sync_session = [SRefresh None]\<rparr>],
      global_refs = {#7#}\<rparr>"
  using refresh_null_token_forwarded [of "0x20"
      "\<lparr>clients = {}, heap = [0x20 \<mapsto> \<lparr>realm_path = [], java_session_ref = 7, sync_session = []\<rparr>],
        global_refs = {#7#}\<rparr>" "\<lparr>realm_path = [], java_session_ref = 7, sync_session = []\<rparr>" recording_engine]
  by (simp add: recording_engine_def)
end
