(* ===== verification/Lifecycle.thy ===== *)
theory Lifecycle
  imports SessionBridge
begin

text \<open>
  The bridge as the Java side drives it. The native methods of
  \<open>io.realm.objectserver.session.Session\<close> become the constructors of
  \<open>jcall\<close>; \<open>bridge_step\<close> dispatches one call to its JNI entry point and
  \<open>run\<close> performs a sequence of calls, each with its own environment, stopping
  at undefined behaviour. \<open>reachable\<close> is the set of states a program can
  bring the bridge into, with the client registry of realm-java as an
  interfering component that creates and destroys clients. The lemmas: calls
  on one handle reach the engine exactly in the order made and the engine's
  state is stored back (C2); the spec's scenario runs as stated for every
  input (C26); a stale handle silently aliases a later session that reuses its
  address (C13); and unbinding every live handle of a reachable state
  releases all wrappers and global references (C5).
\<close>

section \<open>Calls from Java\<close>

datatype jcall =
    CreateSession jobj jlong jstring
  | Bind jlong jstring jstring
  | Unbind jlong
  | Refresh jlong jstring
  | NotifyCommitHappened jlong jlong

datatype jvalue = JVoid | JLong jlong

definition as_void :: "(unit, 's) jni_outcome \<Rightarrow> (jvalue, 's) jni_outcome" where
  "as_void r = (case r of Returned _ ex st \<Rightarrow> Returned JVoid ex st | Undefined u \<Rightarrow> Undefined u)"

definition as_long :: "(jlong, 's) jni_outcome \<Rightarrow> (jvalue, 's) jni_outcome" where
  "as_long r = (case r of Returned h ex st \<Rightarrow> Returned (JLong h) ex st | Undefined u \<Rightarrow> Undefined u)"

fun bridge_step :: "'s sync_engine \<Rightarrow> jni_env \<Rightarrow> jcall \<Rightarrow> 's bridge \<Rightarrow> (jvalue, 's) jni_outcome" where
  "bridge_step eng env (CreateSession obj cp path) st = as_long (nativeCreateSession eng env obj cp path st)"
| "bridge_step eng env (Bind p url tok) st = as_void (nativeBind eng env p url tok st)"
| "bridge_step eng env (Unbind p) st = as_void (nativeUnbind p st)"
| "bridge_step eng env (Refresh p tok) st = as_void (nativeRefresh eng p tok st)"
| "bridge_step eng env (NotifyCommitHappened p v) st = as_void (nativeNotifyCommitHappened eng p v st)"

fun run ::
  "'s sync_engine \<Rightarrow> (jni_env \<times> jcall) list \<Rightarrow> 's bridge \<Rightarrow>
     ub + ((jvalue \<times> java_exc option) list \<times> 's bridge)" where
  "run eng [] st = Inr ([], st)"
| "run eng ((env, c) # cs) st =
     (case bridge_step eng env c st of
        Undefined u \<Rightarrow> Inl u
      | Returned v ex st' \<Rightarrow>
          (case run eng cs st' of
             Inl u \<Rightarrow> Inl u
           | Inr (rs, st'') \<Rightarrow> Inr ((v, ex) # rs, st'')))"

section \<open>Operations on one session and what the engine receives\<close>

text \<open>
  The abstract specification of forwarding: a session operation made through a
  handle should reach the engine as one engine call, with the arguments
  converted as the bridge converts them; \<open>op_forward\<close> is that call, or
  nothing when the arguments cannot be converted. \<open>engine_run\<close> is the engine's
  state after a sequence of calls.
\<close>

datatype session_op = OpBind jstring jstring | OpRefresh jstring | OpNotify jlong

fun op_call :: "jlong \<Rightarrow> session_op \<Rightarrow> jcall" where
  "op_call h (OpBind url tok) = Bind h url tok"
| "op_call h (OpRefresh tok) = Refresh h tok"
| "op_call h (OpNotify v) = NotifyCommitHappened h v"

fun op_forward :: "session_op \<Rightarrow> sync_call option" where
  "op_forward (OpBind url tok) =
     (case (tok, jstring_accessor url) of
        (JStr t, Inr u) \<Rightarrow> Some (SBind u (mutf8 t))
      | _ \<Rightarrow> None)"
| "op_forward (OpRefresh tok) =
     (case jstring_accessor tok of Inr u \<Rightarrow> Some (SRefresh u) | Inl _ \<Rightarrow> None)"
| "op_forward (OpNotify v) = Some (SNotify (to_version v))"

fun engine_apply :: "'s sync_engine \<Rightarrow> 's \<Rightarrow> sync_call \<Rightarrow> 's \<times> native_exc option" where
  "engine_apply eng s (SBind u t) = bind_session eng s u t"
| "engine_apply eng s (SRefresh t) = refresh_session eng s t"
| "engine_apply eng s (SNotify v) = notify_session eng s v"

fun engine_run :: "'s sync_engine \<Rightarrow> 's \<Rightarrow> sync_call list \<Rightarrow> 's" where
  "engine_run eng s [] = s"
| "engine_run eng s (c # cs) = engine_run eng (fst (engine_apply eng s c)) cs"

text \<open>The results Java receives from a sequence of engine calls.\<close>

fun engine_results :: "'s sync_engine \<Rightarrow> 's \<Rightarrow> sync_call list \<Rightarrow> (jvalue \<times> java_exc option) list" where
  "engine_results eng s [] = []"
| "engine_results eng s (c # cs) =
     (JVoid, map_option convert_exception (snd (engine_apply eng s c))) #
     engine_results eng (fst (engine_apply eng s c)) cs"

section \<open>The lifecycle of a handle in the spec\<close>

text \<open>
  The spec's per-handle state machine: created, then bound, then any number of
  refreshes and commit notifications (refreshing and bound are one state for the
  synchronous bridge); \<open>lifecycle_next\<close> is its transition function,
  undefined for an operation the lifecycle rejects. \<open>jstr\<close> writes an ASCII
  Java string.
\<close>

datatype handle_state = HCreated | HBound

fun lifecycle_next :: "handle_state \<Rightarrow> session_op \<Rightarrow> handle_state option" where
  "lifecycle_next HCreated (OpBind url tok) = Some HBound"
| "lifecycle_next HBound (OpRefresh tok) = Some HBound"
| "lifecycle_next HBound (OpNotify v) = Some HBound"
| "lifecycle_next q op = None"

definition jstr :: "string \<Rightarrow> jstring" where
  "jstr s = JStr (map (\<lambda>c. of_nat (of_char c)) s)"

section \<open>Reachable states\<close>

inductive reachable :: "'s sync_engine \<Rightarrow> 's bridge \<Rightarrow> bool" for eng where
  start: "reachable eng \<lparr>clients = cs, heap = Map.empty, global_refs = {#}\<rparr>"
| call: "reachable eng st \<Longrightarrow> fresh_alloc env st \<Longrightarrow>
           bridge_step eng env c st = Returned v ex st' \<Longrightarrow> reachable eng st'"
| client_created: "reachable eng st \<Longrightarrow> a \<notin> dom (heap st) \<Longrightarrow>
           reachable eng (st\<lparr>clients := insert a (clients st)\<rparr>)"
| client_destroyed: "reachable eng st \<Longrightarrow> reachable eng (st\<lparr>clients := clients st - {a}\<rparr>)"

section \<open>Lemmas\<close>

lemma as_void_Returned [simp]:
  "as_void r = Returned v ex st' \<longleftrightarrow> v = JVoid \<and> (\<exists>x. r = Returned x ex st')"
  by (cases r) (auto simp: as_void_def)

lemma as_long_Returned [simp]:
  "as_long r = Returned v ex st' \<longleftrightarrow> (\<exists>h. v = JLong h \<and> r = Returned h ex st')"
  by (cases r) (auto simp: as_long_def)

lemma bridge_step_inv:
  assumes "bridge_inv st" "fresh_alloc env st" "bridge_step eng env c st = Returned v ex st'"
  shows "bridge_inv st'"
  using assms
proof (cases c)
  case (CreateSession obj cp path)
  with assms show ?thesis by (auto intro: nativeCreate_inv)
next
  case (Bind p url tok)
  with assms show ?thesis by (auto intro: session_step_inv nativeBind_session_step)
next
  case (Unbind p)
  with assms show ?thesis by (auto intro: nativeUnbind_inv)
next
  case (Refresh p tok)
  with assms show ?thesis by (auto intro: session_step_inv nativeRefresh_session_step)
next
  case (NotifyCommitHappened p ver)
  with assms show ?thesis by (auto intro: session_step_inv nativeNotify_session_step)
qed

lemma reachable_inv_helper:
  "reachable eng st \<Longrightarrow> bridge_inv st"
proof (induction rule: reachable.induct)
  case (start cs)
  then show ?case by (simp add: bridge_inv_def live_refs_def)
next
  case (call st env c v ex st')
  then show ?case by (blast intro: bridge_step_inv)
next
  case (client_created st a)
  then show ?case by (auto simp: bridge_inv_def)
next
  case (client_destroyed st a)
  then show ?case by (auto simp: bridge_inv_def)
qed

text \<open>A small reachable state: one client, one session created through it.\<close>

lemma reachable_one_session:
  "reachable recording_engine
     \<lparr>clients = {0x10}, heap = [0x20 \<mapsto> \<lparr>realm_path = mutf8 [0x61], java_session_ref = 7, sync_session = []\<rparr>],
      global_refs = {#7#}\<rparr>"
proof -
  let ?st = "\<lparr>clients = {0x10::addr}, heap = Map.empty, global_refs = {#}\<rparr> :: sync_call list bridge"
  let ?env = "\<lparr>utf_chars_ok = True, new_result = Some (0x20::addr)\<rparr>"
  have f: "fresh_alloc ?env ?st" by (simp add: fresh_alloc_def)
  have r: "bridge_step recording_engine ?env (CreateSession 7 0x10 (JStr [0x61])) ?st =
     Returned (JLong 0x20) None
       \<lparr>clients = {0x10}, heap = [0x20 \<mapsto> \<lparr>realm_path = mutf8 [0x61], java_session_ref = 7, sync_session = []\<rparr>],
        global_refs = {#7#}\<rparr>"
    by (simp add: nativeCreateSession_def sync_client_of_def utf_chars_ok_string
        new_session_handle_def new_jni_session_def recording_engine_def as_long_def)
  show ?thesis by (rule reachable.call [OF reachable.start f r])
qed

section \<open>Forwarded calls on one session\<close>

lemma op_step_result:
  assumes "h \<noteq> 0" "heap st h = Some w" "utf_chars_ok env" "op_forward op = Some c"
  shows "bridge_step eng env (op_call h op) st =
     Returned JVoid (map_option convert_exception (snd (engine_apply eng (sync_session w) c)))
       (st\<lparr>heap := (heap st)(h \<mapsto> w\<lparr>sync_session := fst (engine_apply eng (sync_session w) c)\<rparr>)\<rparr>)"
  using assms
  by (cases op)
     (auto simp: nativeBind_def nativeRefresh_def nativeNotifyCommitHappened_def utf_chars_ok_string
        as_void_def catch_std_def split: jstring.splits sum.splits prod.splits option.splits)

lemma engine_results_length [simp]:
  "length (engine_results eng s cs) = length cs"
  by (induction cs arbitrary: s) simp_all

lemma run_session_results:
  assumes "h \<noteq> 0" "heap st h = Some w" "utf_chars_ok env" "\<forall>op\<in>set ops. op_forward op \<noteq> None"
  shows "run eng (map (\<lambda>op. (env, op_call h op)) ops) st =
       Inr (engine_results eng (sync_session w) (map (the \<circ> op_forward) ops),
            st\<lparr>heap := (heap st)(h \<mapsto> w\<lparr>sync_session :=
               engine_run eng (sync_session w) (map (the \<circ> op_forward) ops)\<rparr>)\<rparr>)"
  using assms(2,4)
proof (induction ops arbitrary: st w)
  case Nil
  then show ?case by (simp add: fun_upd_idem)
next
  case (Cons op ops)
  from Cons.prems(2) obtain c where c: "op_forward op = Some c" by auto
  let ?w' = "w\<lparr>sync_session := fst (engine_apply eng (sync_session w) c)\<rparr>"
  let ?st' = "st\<lparr>heap := (heap st)(h \<mapsto> ?w')\<rparr>"
  have s: "bridge_step eng env (op_call h op) st =
      Returned JVoid (map_option convert_exception (snd (engine_apply eng (sync_session w) c))) ?st'"
    by (rule op_step_result [OF assms(1) Cons.prems(1) assms(3) c])
  have r: "run eng (map (\<lambda>op. (env, op_call h op)) ops) ?st' =
       Inr (engine_results eng (sync_session ?w') (map (the \<circ> op_forward) ops),
            ?st'\<lparr>heap := (heap ?st')(h \<mapsto> ?w'\<lparr>sync_session :=
               engine_run eng (sync_session ?w') (map (the \<circ> op_forward) ops)\<rparr>)\<rparr>)"
    using Cons.prems(2) by (intro Cons.IH) simp_all
  have e: "?st'\<lparr>heap := (heap ?st')(h \<mapsto> ?w'\<lparr>sync_session := z\<rparr>)\<rparr> =
           st\<lparr>heap := (heap st)(h \<mapsto> w\<lparr>sync_session := z\<rparr>)\<rparr>" for z
    by simp
  have "run eng (map (\<lambda>op. (env, op_call h op)) (op # ops)) st =
     Inr ((JVoid, map_option convert_exception (snd (engine_apply eng (sync_session w) c))) #
          engine_results eng (sync_session ?w') (map (the \<circ> op_forward) ops),
          st\<lparr>heap := (heap st)(h \<mapsto> w\<lparr>sync_session :=
            engine_run eng (sync_session ?w') (map (the \<circ> op_forward) ops)\<rparr>)\<rparr>)"
    using s r by (simp only: e list.map run.simps jni_outcome.case sum.case prod.case)
  then show ?case using c by (simp add: comp_def fun_upd_def)
qed

section \<open>Forwarding, lifecycle and aliasing\<close>

text \<open>
  C2: refinement of the abstract forwarding specification. On a live handle,
  any sequence of session operations whose strings convert runs without
  undefined behaviour, returns once per call, and leaves the session's engine
  state exactly as the engine run over the abstract calls \<open>op_forward\<close>, in the
  order they were made; no other session changes. This holds for every engine
  and for every order of operations, whether the spec's lifecycle allows it or
  not.
\<close>

theorem run_session_ops:
  assumes "h \<noteq> 0" "heap st h = Some w" "utf_chars_ok env" "\<forall>op\<in>set ops. op_forward op \<noteq> None"
  shows "\<exists>rs. length rs = length ops \<and>
     run eng (map (\<lambda>op. (env, op_call h op)) ops) st =
       Inr (rs, st\<lparr>heap := (heap st)(h \<mapsto> w\<lparr>sync_session :=
               engine_run eng (sync_session w) (map (the \<circ> op_forward) ops)\<rparr>)\<rparr>)"
  using run_session_results [OF assms] by simp


text \<open>
  C13: a stale handle aliases a later session. After \<open>nativeUnbind\<close> the
  address is free, \<open>operator new\<close> may return it again, and the old handle then
  resolves to the new wrapper, with the new Java object: nothing detects the use
  of the stale handle.
\<close>

theorem stale_handle_aliases:
  assumes "h \<noteq> 0" "heap st h = Some w" "nativeUnbind h st = Returned () ex1 st1"
    and "new_result env = Some h"
    and "nativeCreateSession eng env obj cp path st1 = Returned h2 ex2 st2" "h2 \<noteq> 0"
  shows "h \<notin> dom (heap st1) \<and> h2 = h \<and>
    (\<exists>w2. get_session st2 h = Inr w2 \<and> java_session_ref w2 = obj)"
proof -
  from assms(1-3) have st1: "heap st1 h = None"
    by (auto simp: nativeUnbind_def split: if_splits)
  from assms(4-6) have "h2 = h \<and> heap st2 h2 \<noteq> None \<and>
      (\<forall>w2. heap st2 h2 = Some w2 \<longrightarrow> java_session_ref w2 = obj)"
    by (auto simp: nativeCreateSession_def new_session_handle_def new_jni_session_def
        sync_client_of_def catch_std_def split: if_splits sum.splits option.splits)
  with assms(1) st1 show ?thesis by (auto simp: get_session_def)
qed

text \<open>
  C26: the spec's scenario runs as stated, for every engine, client, path,
  URL, token and version: create through a live client with fresh memory gives
  a non-zero handle without a Java exception; bind with a convertible URL and
  notify, when the engine accepts them, return without a Java exception; and
  unbind releases exactly what create took, so the store ends as it began.
\<close>

theorem spec_scenario:
  assumes "fresh_alloc env st" "new_result env = Some a" "cp \<noteq> 0" "cp \<in> clients st"
    and "utf_chars_ok env" "utf_chars_ok env'" "open_session eng cp (mutf8 path) = Inr s"
    and "jstring_accessor url = Inr u" "bind_session eng s u (mutf8 tok) = (s1, None)"
    and "notify_session eng s1 (to_version v) = (s2, None)"
  shows "a \<noteq> 0 \<and>
    run eng [(env, CreateSession obj cp (JStr path)), (env', Bind a url (JStr tok)),
             (env', NotifyCommitHappened a v), (env', Unbind a)] st =
      Inr ([(JLong a, None), (JVoid, None), (JVoid, None), (JVoid, None)], st)"
proof -
  from assms(1,2) have a: "a \<noteq> 0" "heap st a = None" by (auto simp: fresh_alloc_def)
  then have h: "(heap st)(a := None) = heap st" by (simp add: fun_upd_idem)
  show ?thesis
    using assms a h
    by (simp add: nativeCreateSession_def sync_client_of_def utf_chars_ok_string new_session_handle_def
        new_jni_session_def nativeBind_def nativeNotifyCommitHappened_def nativeUnbind_def
        as_long_def as_void_def)
qed

theorem spec_scenario_witness:
  "run recording_engine
     [(\<lparr>utf_chars_ok = True, new_result = Some 0x20\<rparr>, CreateSession 7 0x10 (jstr ''/tmp/a.realm'')),
      (\<lparr>utf_chars_ok = True, new_result = None\<rparr>, Bind 0x20 (jstr ''realm://example/a'') (jstr ''token123'')),
      (\<lparr>utf_chars_ok = True, new_result = None\<rparr>, NotifyCommitHappened 0x20 5),
      (\<lparr>utf_chars_ok = True, new_result = None\<rparr>, Unbind 0x20)]
     \<lparr>clients = {0x10}, heap = Map.empty, global_refs = {#}\<rparr> =
   Inr ([(JLong 0x20, None), (JVoid, None), (JVoid, None), (JVoid, None)],
        \<lparr>clients = {0x10}, heap = Map.empty, global_refs = {#}\<rparr>)"
  using spec_scenario [of "\<lparr>utf_chars_ok = True, new_result = Some 0x20\<rparr>"
      "\<lparr>clients = {0x10}, heap = Map.empty, global_refs = {#}\<rparr> :: sync_call list bridge" "0x20" "0x10"
      "\<lparr>utf_chars_ok = True, new_result = None\<rparr>" recording_engine
      "map (\<lambda>c. of_nat (of_char c)) ''/tmp/a.realm''" "[]" "jstr ''realm://example/a''"
      "Some (map (\<lambda>c. of_nat (of_char c)) ''realm://example/a'')"
      "map (\<lambda>c. of_nat (of_char c)) ''token123''"
      "[SBind (Some (map (\<lambda>c. of_nat (of_char c)) ''realm://example/a''))
          (mutf8 (map (\<lambda>c. of_nat (of_char c)) ''token123''))]" 5
      "[SBind (Some (map (\<lambda>c. of_nat (of_char c)) ''realm://example/a''))
          (mutf8 (map (\<lambda>c. of_nat (of_char c)) ''token123'')), SNotify (to_version 5)]" 7]
  by (simp add: jstr_def fresh_alloc_def recording_engine_def jstring_accessor_def to_byte_def)

theorem run_session_ops_witness:
  "\<exists>rs. length rs = length [OpBind (JStr [0x75]) (JStr [0x74]), OpNotify 5] \<and>
     run recording_engine
       (map (\<lambda>op. (\<lparr>utf_chars_ok = True, new_result = None\<rparr>, op_call 0x20 op))
          [OpBind (JStr [0x75]) (JStr [0x74]), OpNotify 5])
       \<lparr>clients = {}, heap = [0x20 \<mapsto> \<lparr>realm_path = [], java_session_ref = 7, sync_session = []\<rparr>],
        global_refs = {#7#}\<rparr> =
     Inr (rs, \<lparr>clients = {}, heap = [0x20 \<mapsto> \<lparr>realm_path = [], java_session_ref = 7, sync_session = []\<rparr>],
        global_refs = {#7#}\<rparr>\<lparr>heap := (heap \<lparr>clients = {}, heap = [0x20 \<mapsto> \<lparr>realm_path = [], java_session_ref = 7,
          sync_session = []\<rparr>], global_refs = {#7#}\<rparr>)(0x20 \<mapsto> \<lparr>realm_path = [], java_session_ref = 7,
          sync_session = []\<rparr>\<lparr>sync_session := engine_run recording_engine
            (sync_session \<lparr>realm_path = [], java_session_ref = 7, sync_session = []\<rparr>)
            (map (the \<circ> op_forward) [OpBind (JStr [0x75]) (JStr [0x74]), OpNotify 5])\<rparr>)\<rparr>)"
  by (rule run_session_ops) (simp_all add: jstring_accessor_def to_byte_def)

theorem stale_handle_witness:
  "\<exists>w2. get_session (\<lparr>clients = {0x10}, heap = [0x20 \<mapsto> \<lparr>realm_path = mutf8 [0x62], java_session_ref = 8,
      sync_session = []\<rparr>], global_refs = {#8#}\<rparr> :: sync_call list bridge) 0x20 = Inr w2 \<and>
     java_session_ref w2 = 8"
proof -
  let ?w = "\<lparr>realm_path = mutf8 [0x61], java_session_ref = 7, sync_session = []\<rparr> :: sync_call list jni_session"
  let ?st = "\<lparr>clients = {0x10}, heap = [0x20 \<mapsto> ?w], global_refs = {#7#}\<rparr> :: sync_call list bridge"
  let ?st1 = "\<lparr>clients = {0x10}, heap = Map.empty, global_refs = {#}\<rparr> :: sync_call list bridge"
  let ?st2 = "\<lparr>clients = {0x10}, heap = [0x20 \<mapsto> \<lparr>realm_path = mutf8 [0x62], java_session_ref = 8,
      sync_session = []\<rparr>], global_refs = {#8#}\<rparr> :: sync_call list bridge"
  let ?env = "\<lparr>utf_chars_ok = True, new_result = Some (0x20::addr)\<rparr>"
  have u: "nativeUnbind 0x20 ?st = Returned () None ?st1"
    by (simp add: nativeUnbind_def)
  have c: "nativeCreateSession recording_engine ?env 8 0x10 (JStr [0x62]) ?st1 = Returned 0x20 None ?st2"
    by (simp add: nativeCreateSession_def sync_client_of_def utf_chars_ok_string
        new_session_handle_def new_jni_session_def recording_engine_def)
  show ?thesis
    using stale_handle_aliases [OF _ _ u _ c] by simp
qed

text \<open>
  C5: from every reachable state the Java side can release everything:
  unbinding each live handle once, in any order, returns without undefined
  behaviour and without a Java exception, and leaves no wrapper and no JNI
  global reference behind.
\<close>

theorem unbind_all_releases:
  assumes "reachable eng st" "distinct hs" "set hs = dom (heap st)"
  shows "run eng (map (\<lambda>h. (env, Unbind h)) hs) st =
    Inr (map (\<lambda>h. (JVoid, None)) hs, st\<lparr>heap := Map.empty, global_refs := {#}\<rparr>)"
proof -
  have "bridge_inv st" by (rule reachable_inv_helper [OF assms(1)])
  then show ?thesis using assms(2,3)
  proof (induction hs arbitrary: st)
    case Nil
    then have "heap st = Map.empty" "global_refs st = {#}"
      by (auto simp: bridge_inv_def live_refs_def)
    then show ?case by simp
  next
    case (Cons h hs)
    from Cons.prems(3) obtain w where w: "heap st h = Some w" by (metis domD list.set_intros(1))
    from Cons.prems(1) w have h0: "h \<noteq> 0" by (auto simp: bridge_inv_def)
    let ?st1 = "st\<lparr>heap := (heap st)(h := None), global_refs := global_refs st - {#java_session_ref w#}\<rparr>"
    have u: "nativeUnbind h st = Returned () None ?st1" using w h0 by (simp add: nativeUnbind_def)
    have i: "bridge_inv ?st1" by (rule nativeUnbind_inv [OF Cons.prems(1) u])
    have d: "set hs = dom (heap ?st1)" using Cons.prems(2,3) by auto
    from Cons.IH [OF i _ d] Cons.prems(2) u show ?case by (simp add: as_void_def)
  qed
qed

theorem unbind_all_releases_witness:
  "run recording_engine [(\<lparr>utf_chars_ok = True, new_result = None\<rparr>, Unbind 0x20)]
     \<lparr>clients = {0x10}, heap = [0x20 \<mapsto> \<lparr>realm_path = mutf8 [0x61], java_session_ref = 7, sync_session = []\<rparr>],
      global_refs = {#7#}\<rparr> =
   Inr ([(JVoid, None)], \<lparr>clients = {0x10}, heap = Map.empty, global_refs = {#}\<rparr>)"
  using unbind_all_releases [OF reachable_one_session, of "[0x20]" "\<lparr>utf_chars_ok = True, new_result = None\<rparr>"]
  by simp

end
