(* ===== verification/Threads.thy ===== *)
theory Threads
  imports Lifecycle "HOL-Library.Sublist"
begin

text \<open>
  Several Java threads calling the bridge at once. The bridge takes no lock
  (spec, section 5), so the statements of two calls may interleave. Every entry
  point has a \<^emph>\<open>local\<close> phase that touches only the calling thread's arguments
  (\<open>SC\<close>/\<open>SS\<close> are casts; the strings are converted through the thread's own
  \<open>JNIEnv\<close>) and then its steps on the bridge's memory: the allocation and
  construction at line 54 and the \<open>delete\<close> at line 85 are one step each;
  a forwarded call (lines 75, 98, 109) takes two, the dereference
  \<open>session_wrapper->get_session()\<close> and then the engine call on the session it
  found, which lasts until the engine returns. \<open>local_phase\<close> and
  \<open>shared_phase\<close> are the phases of a call, and \<open>bridge_step_phases\<close> shows that
  they compose to the sequential model of \<open>SessionBridge\<close>. The engine call
  itself changes the session's engine state in one step: the spec delegates the
  thread safety of a session to the engine.

  A configuration (\<open>conc\<close>) holds the shared bridge state and, per thread, the
  calls still to make and the call in progress with its phase (\<open>call_phase\<close>):
  arguments prepared, or inside the engine on a dereferenced session, with a
  flag set when another thread deletes that session meanwhile.
  \<open>conc_step\<close> lets one thread make one step and \<open>conc_run\<close> follows a
  schedule. The configuration records the order in which calls completed
  (\<open>lin\<close>), their results and the undefined behaviour reached. The lemmas:
  every interleaving in which no session is deleted under a running engine call
  is equivalent to the sequential run of its calls in the order they completed,
  each thread's calls in program order (C1); a bind that Java started before
  an unbind on another thread can still dereference the freed wrapper (C11);
  and an unbind during an engine call on the same session gives an outcome that
  no sequential order of the two calls has (C12).
\<close>

section \<open>The two phases of a native call\<close>

text \<open>What a call holds after its local phase: the converted arguments of the
  shared step it is about to take.\<close>

datatype prepared =
    PCreate jobj addr bytes
  | PForward jlong sync_call
  | PUnbind jlong

datatype local_result = LDone jvalue "java_exc option" | LUndef ub | LPrepared prepared

text \<open>Lines 45-52 of \<open>nativeCreateSession\<close>: the client cast and its test for
  \<open>NULL\<close>, and the path conversion.\<close>

definition create_local :: "jni_env \<Rightarrow> jobj \<Rightarrow> jlong \<Rightarrow> jstring \<Rightarrow> local_result" where
  "create_local env obj clientPointer localRealmPath =
     (case sync_client_of clientPointer of
        None \<Rightarrow> LDone (JLong 0) None
      | Some sync_client \<Rightarrow>
          (case std_string_of_utf_chars (utf_chars_ok env) localRealmPath of
             Inl u \<Rightarrow> LUndef u
           | Inr local_path \<Rightarrow> LPrepared (PCreate obj sync_client local_path)))"

text \<open>Lines 65-72 of \<open>nativeBind\<close>: the handle cast, the token through
  \<open>GetStringUTFChars\<close>, the URL through \<open>JStringAccessor\<close>.\<close>

definition bind_local :: "jni_env \<Rightarrow> jlong \<Rightarrow> jstring \<Rightarrow> jstring \<Rightarrow> local_result" where
  "bind_local env sessionPointer remoteUrl accessToken =
     (case std_string_of_utf_chars (utf_chars_ok env) accessToken of
        Inl u \<Rightarrow> LUndef u
      | Inr access_token \<Rightarrow>
          (case jstring_accessor remoteUrl of
             Inl e \<Rightarrow> LDone JVoid (Some (convert_exception e))
           | Inr remote_url \<Rightarrow> LPrepared (PForward sessionPointer (SBind remote_url access_token))))"

text \<open>Lines 93-96 of \<open>nativeRefresh\<close>; line 109's conversion of the version
  for \<open>nativeNotifyCommitHappened\<close>.\<close>

definition refresh_local :: "jlong \<Rightarrow> jstring \<Rightarrow> local_result" where
  "refresh_local sessionPointer accessToken =
     (case jstring_accessor accessToken of
        Inl e \<Rightarrow> LDone JVoid (Some (convert_exception e))
      | Inr access_token \<Rightarrow> LPrepared (PForward sessionPointer (SRefresh access_token)))"

definition notify_local :: "jlong \<Rightarrow> jlong \<Rightarrow> local_result" where
  "notify_local sessionPointer version = LPrepared (PForward sessionPointer (SNotify (to_version version)))"

fun local_phase :: "jni_env \<Rightarrow> jcall \<Rightarrow> local_result" where
  "local_phase env (CreateSession obj cp path) = create_local env obj cp path"
| "local_phase env (Bind p url tok) = bind_local env p url tok"
| "local_phase env (Unbind p) = LPrepared (PUnbind p)"
| "local_phase env (Refresh p tok) = refresh_local p tok"
| "local_phase env (NotifyCommitHappened p v) = notify_local p v"

text \<open>The one step of each call on the shared state: \<open>new JNISession\<close> (line
  54), \<open>session_wrapper->get_session()->...\<close> (lines 75, 98, 109),
  \<open>delete session\<close> (line 85).\<close>

fun shared_phase :: "'s sync_engine \<Rightarrow> jni_env \<Rightarrow> prepared \<Rightarrow> 's bridge \<Rightarrow> (jvalue, 's) jni_outcome" where
  "shared_phase eng env (PCreate obj sync_client local_path) st =
     as_long (new_session_handle eng env sync_client local_path obj st)"
| "shared_phase eng env (PForward p c) st =
     (case get_session st p of
        Inl u \<Rightarrow> Undefined u
      | Inr w \<Rightarrow> as_void (forward_result st p w (engine_apply eng (sync_session w) c)))"
| "shared_phase eng env (PUnbind p) st = as_void (nativeUnbind p st)"

section \<open>Threads calling the bridge\<close>

text \<open>The phase of a call in progress: its arguments are prepared for its
  shared steps, or it has dereferenced the wrapper at the given address and
  the engine call is running on that session; the flag says that another
  thread has deleted the wrapper since.\<close>

datatype call_phase = Ready prepared | InEngine jlong sync_call bool

record tstate =
  program :: "(jni_env \<times> jcall) list"
  pending :: "(jni_env \<times> jcall \<times> call_phase) option"

record 's conc =
  shared :: "'s bridge"
  threads :: "tstate list"
  lin :: "(nat \<times> jni_env \<times> jcall) list"
  rets :: "(jvalue \<times> java_exc option) list"
  crashed :: "ub option"

definition conc_init :: "'s bridge \<Rightarrow> (jni_env \<times> jcall) list list \<Rightarrow> 's conc" where
  "conc_init st progs =
     \<lparr>shared = st, threads = map (\<lambda>p. \<lparr>program = p, pending = None\<rparr>) progs, lin = [], rets = [],
      crashed = None\<rparr>"

definition complete :: "nat \<Rightarrow> jni_env \<times> jcall \<Rightarrow> (jvalue, 's) jni_outcome \<Rightarrow> 's conc \<Rightarrow> 's conc" where
  "complete t ec r c =
     (case r of
        Undefined u \<Rightarrow> c\<lparr>lin := lin c @ [(t, ec)], crashed := Some u\<rparr>
      | Returned v ex st' \<Rightarrow> c\<lparr>shared := st', lin := lin c @ [(t, ec)], rets := rets c @ [(v, ex)]\<rparr>)"

definition set_pending :: "nat \<Rightarrow> (jni_env \<times> jcall \<times> call_phase) option \<Rightarrow> 's conc \<Rightarrow> 's conc" where
  "set_pending t x c = c\<lparr>threads := (threads c)[t := (threads c ! t)\<lparr>pending := x\<rparr>]\<rparr>"

text \<open>\<open>delete session\<close> at line 85 destroys the engine session that a call
  running on another thread may still be using.\<close>

definition free_phase :: "jlong \<Rightarrow> call_phase \<Rightarrow> call_phase" where
  "free_phase p ph = (case ph of InEngine q sc fr \<Rightarrow> InEngine q sc (fr \<or> q = p) | Ready pc \<Rightarrow> Ready pc)"

definition mark_freed :: "jlong \<Rightarrow> tstate \<Rightarrow> tstate" where
  "mark_freed p th = th\<lparr>pending := map_option (\<lambda>(env, call, ph). (env, call, free_phase p ph)) (pending th)\<rparr>"

text \<open>One shared step of the call in progress of thread \<open>t\<close>.\<close>

fun shared_step :: "'s sync_engine \<Rightarrow> nat \<Rightarrow> jni_env \<Rightarrow> jcall \<Rightarrow> call_phase \<Rightarrow> 's conc \<Rightarrow> 's conc" where
  "shared_step eng t env call (Ready (PForward p sc)) c =
     (case get_session (shared c) p of
        Inl u \<Rightarrow> complete t (env, call) (Undefined u) (set_pending t None c)
      | Inr w \<Rightarrow> set_pending t (Some (env, call, InEngine p sc False)) c)"
| "shared_step eng t env call (Ready (PUnbind p)) c =
     complete t (env, call) (shared_phase eng env (PUnbind p) (shared c))
       (set_pending t None (c\<lparr>threads := map (mark_freed p) (threads c)\<rparr>))"
| "shared_step eng t env call (Ready (PCreate obj a path)) c =
     complete t (env, call) (shared_phase eng env (PCreate obj a path) (shared c)) (set_pending t None c)"
| "shared_step eng t env call (InEngine p sc fr) c =
     (if fr then complete t (env, call) (Undefined SessionFreedDuringCall) (set_pending t None c)
      else complete t (env, call) (shared_phase eng env (PForward p sc) (shared c)) (set_pending t None c))"

definition conc_step :: "'s sync_engine \<Rightarrow> nat \<Rightarrow> 's conc \<Rightarrow> 's conc" where
  "conc_step eng t c =
     (if crashed c \<noteq> None \<or> length (threads c) \<le> t then c
      else
        (case pending (threads c ! t) of
           Some (env, call, ph) \<Rightarrow> shared_step eng t env call ph c
         | None \<Rightarrow>
             (case program (threads c ! t) of
                [] \<Rightarrow> c
              | (env, call) # rest \<Rightarrow>
                  (case local_phase env call of
                     LPrepared pc \<Rightarrow>
                       c\<lparr>threads := (threads c)[t := \<lparr>program = rest, pending = Some (env, call, Ready pc)\<rparr>]\<rparr>
                   | LDone v ex \<Rightarrow>
                       complete t (env, call) (Returned v ex (shared c))
                         (c\<lparr>threads := (threads c)[t := \<lparr>program = rest, pending = None\<rparr>]\<rparr>)
                   | LUndef u \<Rightarrow>
                       complete t (env, call) (Undefined u)
                         (c\<lparr>threads := (threads c)[t := \<lparr>program = rest, pending = None\<rparr>]\<rparr>)))))"

definition conc_run :: "'s sync_engine \<Rightarrow> nat list \<Rightarrow> 's conc \<Rightarrow> 's conc" where
  "conc_run eng ts c = fold (conc_step eng) ts c"

definition pending_calls :: "tstate \<Rightarrow> (jni_env \<times> jcall) list" where
  "pending_calls th = (case pending th of None \<Rightarrow> [] | Some (env, call, ph) \<Rightarrow> [(env, call)])"

definition calls_left :: "tstate \<Rightarrow> (jni_env \<times> jcall) list" where
  "calls_left th = pending_calls th @ program th"

definition thread_calls :: "nat \<Rightarrow> (nat \<times> jni_env \<times> jcall) list \<Rightarrow> (jni_env \<times> jcall) list" where
  "thread_calls t l = map snd (filter (\<lambda>x. fst x = t) l)"

definition outcome_of :: "'s conc \<Rightarrow> ub + ((jvalue \<times> java_exc option) list \<times> 's bridge)" where
  "outcome_of c = (case crashed c of None \<Rightarrow> Inr (rets c, shared c) | Some u \<Rightarrow> Inl u)"

text \<open>A call in progress is consistent with its arguments, and a call inside
  the engine whose session was not deleted holds a live wrapper.\<close>

fun phase_ok :: "'s bridge \<Rightarrow> jni_env \<Rightarrow> jcall \<Rightarrow> call_phase \<Rightarrow> bool" where
  "phase_ok st env call (Ready pc) = (local_phase env call = LPrepared pc)"
| "phase_ok st env call (InEngine p sc fr) =
     (local_phase env call = LPrepared (PForward p sc) \<and> (fr \<or> (p \<noteq> 0 \<and> p \<in> dom (heap st))))"

definition conc_inv :: "'s sync_engine \<Rightarrow> 's bridge \<Rightarrow> (jni_env \<times> jcall) list list \<Rightarrow> 's conc \<Rightarrow> bool" where
  "conc_inv eng st0 progs c \<longleftrightarrow>
     length (threads c) = length progs \<and>
     (crashed c \<noteq> Some SessionFreedDuringCall \<longrightarrow> run eng (map snd (lin c)) st0 = outcome_of c) \<and>
     (\<forall>t < length progs. thread_calls t (lin c) @ calls_left (threads c ! t) = progs ! t) \<and>
     (\<forall>t < length progs. \<forall>env call ph.
        pending (threads c ! t) = Some (env, call, ph) \<longrightarrow> phase_ok (shared c) env call ph)"

section \<open>Lemmas\<close>

lemma run_append:
  "run eng (xs @ ys) st =
     (case run eng xs st of
        Inl u \<Rightarrow> Inl u
      | Inr (rs, st') \<Rightarrow> (case run eng ys st' of Inl u \<Rightarrow> Inl u | Inr (rs', st'') \<Rightarrow> Inr (rs @ rs', st'')))"
  by (induction eng xs st rule: run.induct) (auto split: jni_outcome.splits sum.splits)

lemma run_snoc_complete:
  assumes "run eng (map snd (lin c)) st0 = outcome_of c" "crashed c = None"
    and "bridge_step eng env call (shared c) = r"
  shows "run eng (map snd (lin (complete t (env, call) r c))) st0 = outcome_of (complete t (env, call) r c)"
  using assms
  by (auto simp: complete_def outcome_of_def run_append split: jni_outcome.splits)

lemma thread_calls_snoc:
  "thread_calls t (l @ [(t', ec)]) = thread_calls t l @ (if t' = t then [ec] else [])"
  by (simp add: thread_calls_def)

lemma bridge_step_phases:
  "bridge_step eng env call st =
     (case local_phase env call of
        LPrepared pc \<Rightarrow> shared_phase eng env pc st
      | LDone v ex \<Rightarrow> Returned v ex st
      | LUndef u \<Rightarrow> Undefined u)"
  by (cases call)
     (auto simp: nativeCreateSession_def create_local_def nativeBind_def bind_local_def
        nativeRefresh_def refresh_local_def nativeNotifyCommitHappened_def notify_local_def
        catch_std_def as_long_def as_void_def
        split: option.splits sum.splits jstring.splits ub.splits jni_outcome.splits)

text \<open>The sequential bridge never reports an engine call on a deleted session:
  that undefined behaviour needs two threads.\<close>

lemma bridge_step_not_freed_during_call:
  "bridge_step eng env call st \<noteq> Undefined SessionFreedDuringCall"
  by (cases call)
     (auto simp: nativeCreateSession_def nativeBind_def nativeRefresh_def nativeNotifyCommitHappened_def
        nativeUnbind_def new_session_handle_def get_session_def std_string_of_utf_chars_def
        catch_std_def as_long_def as_void_def
        split: option.splits sum.splits jstring.splits if_splits jni_outcome.splits)

lemma run_not_freed_during_call:
  "run eng cs st \<noteq> Inl SessionFreedDuringCall"
  by (induction eng cs st rule: run.induct)
     (auto simp: bridge_step_not_freed_during_call split: jni_outcome.splits sum.splits)

lemma complete_fields [simp]:
  "threads (complete t ec r c) = threads c"
  "lin (complete t ec r c) = lin c @ [(t, ec)]"
  "shared (complete t ec r c) = (case r of Returned v ex st' \<Rightarrow> st' | Undefined u \<Rightarrow> shared c)"
  "crashed (complete t ec r c) = (case r of Returned v ex st' \<Rightarrow> crashed c | Undefined u \<Rightarrow> Some u)"
  by (simp_all add: complete_def split: jni_outcome.splits)

lemma outcome_of_threads [simp]:
  "outcome_of (c\<lparr>threads := x\<rparr>) = outcome_of c"
  by (simp add: outcome_of_def split: option.splits)

lemma calls_left_simps [simp]:
  "calls_left (th\<lparr>pending := None\<rparr>) = program th"
  "calls_left (mark_freed p th) = calls_left th"
  "calls_left \<lparr>program = rest, pending = Some (env, call, ph)\<rparr> = (env, call) # rest"
  "calls_left \<lparr>program = rest, pending = None\<rparr> = rest"
  by (auto simp: calls_left_def pending_calls_def mark_freed_def split: option.splits)

lemma phase_ok_mono:
  "phase_ok st env call ph \<Longrightarrow> dom (heap st) \<subseteq> dom (heap st') \<Longrightarrow> phase_ok st' env call ph"
  by (cases ph) auto

lemma phase_ok_free:
  "phase_ok st env call ph \<Longrightarrow> dom (heap st) - {p} \<subseteq> dom (heap st') \<Longrightarrow>
     phase_ok st' env call (free_phase p ph)"
  by (cases ph) (auto simp: free_phase_def)

lemma program_mark_freed [simp]:
  "program (mark_freed p th) = program th"
  by (simp add: mark_freed_def)

lemma pending_mark_freed:
  "pending (mark_freed p th) = Some (env, call, ph) \<longleftrightarrow>
     (\<exists>ph0. pending th = Some (env, call, ph0) \<and> ph = free_phase p ph0)"
  by (auto simp: mark_freed_def)

text \<open>What the shared steps do to the set of live wrappers: creation only
  adds, a forwarded call keeps it, \<open>delete\<close> removes at most its own.\<close>

lemma shared_phase_dom:
  assumes "shared_phase eng env pc st = Returned v ex st'"
  shows "dom (heap st) - (case pc of PUnbind p \<Rightarrow> {p} | _ \<Rightarrow> {}) \<subseteq> dom (heap st')"
proof (cases pc)
  case (PCreate obj a path)
  with assms show ?thesis
    by (auto simp: new_session_handle_def catch_std_def split: option.splits if_splits sum.splits)
next
  case (PForward p sc)
  with assms show ?thesis
    by (auto simp: get_session_def split: if_splits option.splits)
next
  case (PUnbind p)
  with assms show ?thesis
    by (auto dest!: nativeUnbind_Returned)
qed

text \<open>A call completes: it joins the order of effects, and the outcome of the
  sequential run of that order follows, unless the call ran on a deleted
  session.\<close>

lemma conc_inv_complete:
  assumes inv: "conc_inv eng st0 progs c" and nc: "crashed c = None"
    and len: "length ts = length (threads c)" and t: "t < length ts"
    and q: "calls_left (threads c ! t) = (env, call) # calls_left (ts ! t)"
    and oth: "\<And>t'. t' < length ts \<Longrightarrow> t' \<noteq> t \<Longrightarrow> calls_left (ts ! t') = calls_left (threads c ! t')"
    and r: "r = Undefined SessionFreedDuringCall \<or> r = bridge_step eng env call (shared c)"
    and ph: "\<And>t' env' call' ph'. t' < length ts \<Longrightarrow> pending (ts ! t') = Some (env', call', ph') \<Longrightarrow>
      phase_ok (shared (complete t (env, call) r (c\<lparr>threads := ts\<rparr>))) env' call' ph'"
  shows "conc_inv eng st0 progs (complete t (env, call) r (c\<lparr>threads := ts\<rparr>))"
proof -
  let ?c1 = "c\<lparr>threads := ts\<rparr>"
  have run1: "run eng (map snd (lin ?c1)) st0 = outcome_of ?c1"
    using inv nc by (simp add: conc_inv_def)
  have runc: "crashed (complete t (env, call) r ?c1) \<noteq> Some SessionFreedDuringCall \<longrightarrow>
      run eng (map snd (lin (complete t (env, call) r ?c1))) st0 = outcome_of (complete t (env, call) r ?c1)"
  proof
    assume "crashed (complete t (env, call) r ?c1) \<noteq> Some SessionFreedDuringCall"
    with r have "bridge_step eng env call (shared ?c1) = r" by auto
    from run_snoc_complete [OF run1 _ this] nc show "run eng (map snd (lin (complete t (env, call) r ?c1))) st0 =
      outcome_of (complete t (env, call) r ?c1)" by simp
  qed
  have thr: "thread_calls t' (lin c @ [(t, env, call)]) @ calls_left (ts ! t') = progs ! t'"
    if t': "t' < length progs" for t'
  proof -
    from inv t' have old: "thread_calls t' (lin c) @ calls_left (threads c ! t') = progs ! t'"
      by (simp add: conc_inv_def)
    show ?thesis
    proof (cases "t' = t")
      case True
      with old q show ?thesis by (simp add: thread_calls_snoc)
    next
      case False
      with old oth t' len inv show ?thesis by (simp add: thread_calls_snoc conc_inv_def)
    qed
  qed
  show ?thesis
    using inv len runc thr ph by (simp add: conc_inv_def)
qed

text \<open>A step that only changes the phases of calls in progress.\<close>

lemma conc_inv_threads:
  assumes inv: "conc_inv eng st0 progs c" and len: "length ts = length (threads c)"
    and cl: "\<And>t'. t' < length ts \<Longrightarrow> calls_left (ts ! t') = calls_left (threads c ! t')"
    and ph: "\<And>t' env' call' ph'. t' < length ts \<Longrightarrow> pending (ts ! t') = Some (env', call', ph') \<Longrightarrow>
      phase_ok (shared c) env' call' ph'"
  shows "conc_inv eng st0 progs (c\<lparr>threads := ts\<rparr>)"
  using assms by (simp add: conc_inv_def)

lemma conc_inv_phase:
  "conc_inv eng st0 progs c \<Longrightarrow> t < length (threads c) \<Longrightarrow> pending (threads c ! t) = Some (env, call, ph) \<Longrightarrow>
     phase_ok (shared c) env call ph"
  by (simp add: conc_inv_def)

lemma calls_left_pending:
  "pending th = Some (env, call, ph) \<Longrightarrow> calls_left th = (env, call) # program th"
  by (simp add: calls_left_def pending_calls_def)

lemma shared_phase_dom_after:
  "dom (heap st) - (case pc of PUnbind p \<Rightarrow> {p} | _ \<Rightarrow> {}) \<subseteq>
     dom (heap (case shared_phase eng env pc st of Returned v ex st' \<Rightarrow> st' | Undefined u \<Rightarrow> st))"
  by (auto split: jni_outcome.splits dest: shared_phase_dom)

text \<open>The calls in progress of the other threads stay consistent when the
  step of thread \<open>t\<close> keeps every live wrapper, or deletes one and marks the
  calls running on it.\<close>

lemma phases_after_step:
  assumes inv: "conc_inv eng st0 progs c" and t: "t < length (threads c)"
    and d: "dom (heap (shared c)) \<subseteq> dom (heap st')"
    and t': "t' < length (threads c)" and x: "pending x = None"
    and p: "pending ((threads c)[t := x] ! t') = Some (env', call', ph')"
  shows "phase_ok st' env' call' ph'"
proof -
  from t' x p have "t' \<noteq> t" by (cases "t' = t") simp_all
  with t' p have "pending (threads c ! t') = Some (env', call', ph')" by simp
  from conc_inv_phase [OF inv _ this] t' have "phase_ok (shared c) env' call' ph'" by simp
  from phase_ok_mono [OF this d] show ?thesis .
qed

lemma phases_after_delete:
  assumes inv: "conc_inv eng st0 progs c" and t: "t < length (threads c)"
    and d: "dom (heap (shared c)) - {p} \<subseteq> dom (heap st')"
    and t': "t' < length (threads c)" and x: "pending x = None"
    and pe: "pending ((map (mark_freed p) (threads c))[t := x] ! t') = Some (env', call', ph')"
  shows "phase_ok st' env' call' ph'"
proof -
  from t' x pe have "t' \<noteq> t" by (cases "t' = t") simp_all
  with t' pe obtain ph0 where "pending (threads c ! t') = Some (env', call', ph0)" "ph' = free_phase p ph0"
    by (auto simp: pending_mark_freed)
  with conc_inv_phase [OF inv] t' have "phase_ok (shared c) env' call' ph0" "ph' = free_phase p ph0" by auto
  with phase_ok_free [OF _ d] show ?thesis by simp
qed

lemma shared_step_inv:
  assumes inv: "conc_inv eng st0 progs c" and nc: "crashed c = None" and t: "t < length (threads c)"
    and pe: "pending (threads c ! t) = Some (env, call, ph)"
  shows "conc_inv eng st0 progs (shared_step eng t env call ph c)"
proof -
  let ?th = "(threads c ! t)\<lparr>pending := None\<rparr>"
  let ?ts = "(threads c)[t := ?th]"
  have ok: "phase_ok (shared c) env call ph" by (rule conc_inv_phase [OF inv t pe])
  have q: "calls_left (threads c ! t) = (env, call) # calls_left (?ts ! t)"
    using t pe by (simp add: calls_left_pending)
  have sp: "set_pending t None c = c\<lparr>threads := ?ts\<rparr>" by (simp add: set_pending_def)
  have fin: "conc_inv eng st0 progs (complete t (env, call) r (c\<lparr>threads := ?ts\<rparr>))"
    if r: "r = Undefined SessionFreedDuringCall \<or> r = bridge_step eng env call (shared c)"
      and d: "dom (heap (shared c)) \<subseteq> dom (heap (case r of Returned v ex st' \<Rightarrow> st' | Undefined u \<Rightarrow> shared c))"
    for r
  proof (rule conc_inv_complete [OF inv nc _ _ q _ r])
    show "length ?ts = length (threads c)" "t < length ?ts" using t by simp_all
    show "calls_left (?ts ! t') = calls_left (threads c ! t')" if "t' < length ?ts" "t' \<noteq> t" for t'
      using that by simp
    fix t' env' call' ph'
    assume "t' < length ?ts" "pending (?ts ! t') = Some (env', call', ph')"
    then have "phase_ok (case r of Returned v ex st' \<Rightarrow> st' | Undefined u \<Rightarrow> shared c) env' call' ph'"
      by (rule_tac phases_after_step [OF inv t d]) simp_all
    then show "phase_ok (shared (complete t (env, call) r (c\<lparr>threads := ?ts\<rparr>))) env' call' ph'"
      by (simp cong: jni_outcome.case_cong)
  qed
  show ?thesis
  proof (cases ph)
    case (Ready pc)
    with ok have l: "local_phase env call = LPrepared pc" by simp
    then have b: "bridge_step eng env call (shared c) = shared_phase eng env pc (shared c)"
      by (simp add: bridge_step_phases)
    show ?thesis
    proof (cases pc)
      case (PForward p sc)
      show ?thesis
      proof (cases "get_session (shared c) p")
        case (Inl u)
        have "conc_inv eng st0 progs (complete t (env, call) (Undefined u) (c\<lparr>threads := ?ts\<rparr>))"
          by (rule fin) (simp_all add: b PForward Inl)
        with Ready PForward Inl sp show ?thesis by simp
      next
        case (Inr w)
        have "conc_inv eng st0 progs (c\<lparr>threads := (threads c)[t := (threads c ! t)\<lparr>pending := Some (env, call, InEngine p sc False)\<rparr>]\<rparr>)"
          by (rule conc_inv_threads [OF inv])
             (use t pe Inr l PForward in \<open>auto simp: calls_left_pending get_session_Inr_iff nth_list_update
                 split: if_splits intro: conc_inv_phase [OF inv]\<close>)
        with Ready PForward Inr show ?thesis by (simp add: set_pending_def)
      qed
    next
      case (PCreate obj a path)
      have "conc_inv eng st0 progs (complete t (env, call) (shared_phase eng env pc (shared c)) (c\<lparr>threads := ?ts\<rparr>))"
        by (rule fin) (use b shared_phase_dom_after [of "shared c" pc eng env] PCreate in simp_all)
      with Ready PCreate sp show ?thesis by simp
    next
      case (PUnbind p)
      let ?ms = "map (mark_freed p) (threads c)"
      let ?ts1 = "?ms[t := (?ms ! t)\<lparr>pending := None\<rparr>]"
      let ?r = "shared_phase eng env pc (shared c)"
      have d: "dom (heap (shared c)) - {p} \<subseteq> dom (heap (case ?r of Returned v ex st' \<Rightarrow> st' | Undefined u \<Rightarrow> shared c))"
        using shared_phase_dom_after [of "shared c" pc eng env] PUnbind by simp
      have "conc_inv eng st0 progs (complete t (env, call) ?r (c\<lparr>threads := ?ts1\<rparr>))"
      proof (rule conc_inv_complete [OF inv nc])
        show "length ?ts1 = length (threads c)" "t < length ?ts1" using t by simp_all
        show "calls_left (threads c ! t) = (env, call) # calls_left (?ts1 ! t)"
          using t pe by (simp add: calls_left_pending)
        show "calls_left (?ts1 ! t') = calls_left (threads c ! t')" if "t' < length ?ts1" "t' \<noteq> t" for t'
          using that by simp
        show "?r = Undefined SessionFreedDuringCall \<or> ?r = bridge_step eng env call (shared c)"
          using b by simp
        fix t' env' call' ph'
        assume "t' < length ?ts1" "pending (?ts1 ! t') = Some (env', call', ph')"
        then have "phase_ok (case ?r of Returned v ex st' \<Rightarrow> st' | Undefined u \<Rightarrow> shared c) env' call' ph'"
          by (rule_tac phases_after_delete [OF inv t d]) simp_all
        then show "phase_ok (shared (complete t (env, call) ?r (c\<lparr>threads := ?ts1\<rparr>))) env' call' ph'"
          by (simp cong: jni_outcome.case_cong)
      qed
      with Ready PUnbind show ?thesis by (simp add: set_pending_def)
    qed
  next
    case (InEngine p sc fr)
    show ?thesis
    proof (cases fr)
      case True
      have "conc_inv eng st0 progs (complete t (env, call) (Undefined SessionFreedDuringCall) (c\<lparr>threads := ?ts\<rparr>))"
        by (rule fin) simp_all
      with InEngine True sp show ?thesis by simp
    next
      case False
      from ok InEngine have "local_phase env call = LPrepared (PForward p sc)" by simp
      then have b: "bridge_step eng env call (shared c) = shared_phase eng env (PForward p sc) (shared c)"
        by (simp add: bridge_step_phases)
      have "conc_inv eng st0 progs (complete t (env, call) (shared_phase eng env (PForward p sc) (shared c))
          (c\<lparr>threads := ?ts\<rparr>))"
        by (rule fin) (use b shared_phase_dom_after [of "shared c" "PForward p sc" eng env] in simp_all)
      with InEngine False sp show ?thesis by simp
    qed
  qed
qed

lemma conc_step_inv:
  assumes inv: "conc_inv eng st0 progs c"
  shows "conc_inv eng st0 progs (conc_step eng t c)"
proof (cases "crashed c \<noteq> None \<or> length (threads c) \<le> t")
  case True
  then show ?thesis using inv by (simp add: conc_step_def)
next
  case False
  then have nc: "crashed c = None" and t: "t < length (threads c)" by auto
  show ?thesis
  proof (cases "pending (threads c ! t)")
    case (Some x)
    obtain env call ph where x: "x = (env, call, ph)" by (cases x) auto
    from shared_step_inv [OF inv nc t] Some x nc t show ?thesis by (simp add: conc_step_def)
  next
    case None
    show ?thesis
    proof (cases "program (threads c ! t)")
      case Nil
      then show ?thesis using inv nc t None by (simp add: conc_step_def)
    next
      case (Cons ec rest)
      obtain env call where ec: "ec = (env, call)" by (cases ec)
      let ?ts = "(threads c)[t := \<lparr>program = rest, pending = None\<rparr>]"
      have q: "calls_left (threads c ! t) = (env, call) # calls_left (?ts ! t)"
        using t None Cons ec by (simp add: calls_left_def pending_calls_def)
      have oth: "calls_left (?ts ! t') = calls_left (threads c ! t')" if "t' < length ?ts" "t' \<noteq> t" for t'
        using that by simp
      have ph: "phase_ok (shared (complete t (env, call) (Returned v ex (shared c)) (c\<lparr>threads := ?ts\<rparr>))) env' call' ph' \<and>
          phase_ok (shared (complete t (env, call) (Undefined u) (c\<lparr>threads := ?ts\<rparr>))) env' call' ph'"
        if "t' < length ?ts" "pending (?ts ! t') = Some (env', call', ph')" for t' env' call' ph' v ex u
        using that phases_after_step [OF inv t subset_refl, of t' "\<lparr>program = rest, pending = None\<rparr>"] by simp
      show ?thesis
      proof (cases "local_phase env call")
        case (LDone v ex)
        have "conc_inv eng st0 progs (complete t (env, call) (Returned v ex (shared c)) (c\<lparr>threads := ?ts\<rparr>))"
          by (rule conc_inv_complete [OF inv nc _ _ q oth]) (use t LDone ph in \<open>simp_all add: bridge_step_phases\<close>)
        then show ?thesis using nc t None Cons ec LDone by (simp add: conc_step_def)
      next
        case (LUndef u)
        have "conc_inv eng st0 progs (complete t (env, call) (Undefined u) (c\<lparr>threads := ?ts\<rparr>))"
          by (rule conc_inv_complete [OF inv nc _ _ q oth]) (use t LUndef ph in \<open>simp_all add: bridge_step_phases\<close>)
        then show ?thesis using nc t None Cons ec LUndef by (simp add: conc_step_def)
      next
        case (LPrepared pc)
        have "conc_inv eng st0 progs (c\<lparr>threads := (threads c)[t := \<lparr>program = rest, pending = Some (env, call, Ready pc)\<rparr>]\<rparr>)"
          by (rule conc_inv_threads [OF inv])
             (use t None Cons ec LPrepared in \<open>auto simp: nth_list_update calls_left_def pending_calls_def
                 split: if_splits intro: conc_inv_phase [OF inv]\<close>)
        then show ?thesis using nc t None Cons ec LPrepared by (simp add: conc_step_def)
      qed
    qed
  qed
qed

lemma conc_run_inv:
  "conc_inv eng st0 progs c \<Longrightarrow> conc_inv eng st0 progs (conc_run eng ts c)"
  by (induction ts arbitrary: c) (simp_all add: conc_run_def conc_step_inv)

lemma conc_init_inv:
  "conc_inv eng st progs (conc_init st progs)"
  by (simp add: conc_inv_def conc_init_def outcome_of_def thread_calls_def calls_left_def pending_calls_def)

lemmas conc_eval_simps =
  conc_run_def conc_step_def conc_init_def set_pending_def mark_freed_def free_phase_def complete_def
  get_session_def nativeUnbind_def as_void_def forward_result_def catch_std_def

section \<open>Concurrent callers\<close>

text \<open>
  C1: the bridge is linearizable with respect to its sequential model exactly
  as long as no session is deleted under a running engine call. For every set
  of threads and every schedule, the outcome of the interleaved execution (the
  results returned, the final state, or the undefined behaviour reached) is the
  outcome of the sequential \<open>run\<close> of the calls in the order in which they
  completed if and only if the execution did not end with an engine call on a
  session that another thread's \<open>nativeUnbind\<close> had deleted; that order keeps
  each thread's calls in its program order. The properties proved of \<open>run\<close>
  therefore hold for concurrent callers that serialise unbind against the
  engine calls on the same session.
\<close>

theorem interleaving_linearizable:
  "(run eng (map snd (lin (conc_run eng ts (conc_init st progs)))) st = outcome_of (conc_run eng ts (conc_init st progs)) \<longleftrightarrow>
    crashed (conc_run eng ts (conc_init st progs)) \<noteq> Some SessionFreedDuringCall) \<and>
   (\<forall>t < length progs. prefix (thread_calls t (lin (conc_run eng ts (conc_init st progs)))) (progs ! t))"
proof -
  let ?c = "conc_run eng ts (conc_init st progs)"
  have inv: "conc_inv eng st progs ?c"
    by (rule conc_run_inv [OF conc_init_inv])
  have "run eng (map snd (lin ?c)) st = outcome_of ?c \<longleftrightarrow> crashed ?c \<noteq> Some SessionFreedDuringCall"
  proof
    assume "run eng (map snd (lin ?c)) st = outcome_of ?c"
    then show "crashed ?c \<noteq> Some SessionFreedDuringCall"
      using run_not_freed_during_call [of eng "map snd (lin ?c)" st] by (auto simp: outcome_of_def)
  next
    assume "crashed ?c \<noteq> Some SessionFreedDuringCall"
    with inv show "run eng (map snd (lin ?c)) st = outcome_of ?c" by (simp add: conc_inv_def)
  qed
  moreover have "\<forall>t < length progs. thread_calls t (lin ?c) @ calls_left (threads ?c ! t) = progs ! t"
    using inv by (simp add: conc_inv_def)
  ultimately show ?thesis by (auto intro: prefixI [OF sym])
qed

text \<open>
  C11: unbind must be serialised against in-flight calls by the caller.
  When one thread starts \<open>nativeBind\<close> on a live handle and, while it converts
  its strings, another thread runs \<open>nativeUnbind\<close> on the same handle, the bind
  dereferences the freed wrapper; yet the sequential execution of the two calls
  in the order Java started them runs without undefined behaviour.
\<close>

theorem unbind_race_crashes:
  assumes "h \<noteq> 0" "heap st h = Some w" "utf_chars_ok env" "jstring_accessor url = Inr u"
  shows "crashed (conc_run eng [0, 1, 1, 0] (conc_init st [[(env, Bind h url (JStr tk))], [(env', Unbind h)]])) =
      Some DanglingPointerDeref \<and>
    (\<exists>rs st'. run eng [(env, Bind h url (JStr tk)), (env', Unbind h)] st = Inr (rs, st'))"
  using assms
  by (simp add: conc_eval_simps bind_local_def utf_chars_ok_string nativeBind_def
      split: prod.splits option.splits)

text \<open>
  C12: an unbind during an engine call has no sequential explanation. While
  \<open>nativeNotifyCommitHappened\<close> on a live handle is inside the engine (it has
  dereferenced the wrapper at line 109), another thread's \<open>nativeUnbind\<close> of
  the same handle deletes the wrapper and its engine session (line 85), and the
  engine call goes on with a destroyed session. Neither sequential order of the
  two calls behaves so: notify first runs without undefined behaviour, unbind
  first makes the notify dereference the freed wrapper.
\<close>

theorem unbind_during_engine_call:
  assumes "h \<noteq> 0" "heap st h = Some w"
  shows "crashed (conc_run eng [0, 0, 1, 1, 0] (conc_init st [[(env, NotifyCommitHappened h v)], [(env', Unbind h)]])) =
      Some SessionFreedDuringCall \<and>
    (\<exists>rs st'. run eng [(env, NotifyCommitHappened h v), (env', Unbind h)] st = Inr (rs, st')) \<and>
    run eng [(env', Unbind h), (env, NotifyCommitHappened h v)] st = Inl DanglingPointerDeref"
  using assms
  by (simp add: conc_eval_simps notify_local_def nativeNotifyCommitHappened_def split: prod.splits)

theorem interleaving_witness:
  "run recording_engine (map snd (lin (conc_run recording_engine [0, 1, 1, 0] (conc_init
      \<lparr>clients = {}, heap = [0x20 \<mapsto> \<lparr>realm_path = [], java_session_ref = 7, sync_session = []\<rparr>],
        global_refs = {#7#}\<rparr>
      [[(\<lparr>utf_chars_ok = True, new_result = None\<rparr>, Bind 0x20 (JStr [0x75]) (JStr [0x74]))],
       [(\<lparr>utf_chars_ok = True, new_result = None\<rparr>, Unbind 0x20)]])))) \<lparr>clients = {}, heap = [0x20 \<mapsto> \<lparr>realm_path = [], java_session_ref = 7, sync_session = []\<rparr>],
        global_refs = {#7#}\<rparr> =
   outcome_of (conc_run recording_engine [0, 1, 1, 0] (conc_init
      \<lparr>clients = {}, heap = [0x20 \<mapsto> \<lparr>realm_path = [], java_session_ref = 7, sync_session = []\<rparr>],
        global_refs = {#7#}\<rparr>
      [[(\<lparr>utf_chars_ok = True, new_result = None\<rparr>, Bind 0x20 (JStr [0x75]) (JStr [0x74]))],
       [(\<lparr>utf_chars_ok = True, new_result = None\<rparr>, Unbind 0x20)]])) \<and>
   prefix (thread_calls 0 (lin (conc_run recording_engine [0, 1, 1, 0] (conc_init
      \<lparr>clients = {}, heap = [0x20 \<mapsto> \<lparr>realm_path = [], java_session_ref = 7, sync_session = []\<rparr>],
        global_refs = {#7#}\<rparr>
      [[(\<lparr>utf_chars_ok = True, new_result = None\<rparr>, Bind 0x20 (JStr [0x75]) (JStr [0x74]))],
       [(\<lparr>utf_chars_ok = True, new_result = None\<rparr>, Unbind 0x20)]])))) [(\<lparr>utf_chars_ok = True, new_result = None\<rparr>, Bind 0x20 (JStr [0x75]) (JStr [0x74]))]"
proof -
  have c: "crashed (conc_run recording_engine [0, 1, 1, 0] (conc_init (\<lparr>clients = {}, heap = [0x20 \<mapsto> \<lparr>realm_path = [], java_session_ref = 7, sync_session = []\<rparr>],
        global_refs = {#7#}\<rparr> :: sync_call list bridge)
      [[(\<lparr>utf_chars_ok = True, new_result = None\<rparr>, Bind 0x20 (JStr [0x75]) (JStr [0x74]))],
       [(\<lparr>utf_chars_ok = True, new_result = None\<rparr>, Unbind 0x20)]])) = Some DanglingPointerDeref"
    by (simp add: conc_eval_simps bind_local_def utf_chars_ok_string jstring_accessor_def to_byte_def)
  show ?thesis
    using interleaving_linearizable [of recording_engine "[0, 1, 1, 0]" "\<lparr>clients = {}, heap = [0x20 \<mapsto> \<lparr>realm_path = [], java_session_ref = 7, sync_session = []\<rparr>],
        global_refs = {#7#}\<rparr> :: sync_call list bridge"
      "[[(\<lparr>utf_chars_ok = True, new_result = None\<rparr>, Bind 0x20 (JStr [0x75]) (JStr [0x74]))],
       [(\<lparr>utf_chars_ok = True, new_result = None\<rparr>, Unbind 0x20)]]"] c
    by fastforce
qed

theorem unbind_race_witness:
  "crashed (conc_run recording_engine [0, 1, 1, 0]
     (conc_init \<lparr>clients = {}, heap = [0x20 \<mapsto> \<lparr>realm_path = [], java_session_ref = 7, sync_session = []\<rparr>],
        global_refs = {#7#}\<rparr>
      [[(\<lparr>utf_chars_ok = True, new_result = None\<rparr>, Bind 0x20 (JStr [0x75]) (JStr [0x74]))],
       [(\<lparr>utf_chars_ok = True, new_result = None\<rparr>, Unbind 0x20)]])) = Some DanglingPointerDeref"
  using unbind_race_crashes [of "0x20" "\<lparr>clients = {}, heap = [0x20 \<mapsto> \<lparr>realm_path = [], java_session_ref = 7, sync_session = []\<rparr>],
        global_refs = {#7#}\<rparr> :: sync_call list bridge"
      "\<lparr>realm_path = [], java_session_ref = 7, sync_session = []\<rparr>" "\<lparr>utf_chars_ok = True, new_result = None\<rparr>"
      "JStr [0x75]" "Some [0x75]" recording_engine "[0x74]" "\<lparr>utf_chars_ok = True, new_result = None\<rparr>"]
  by (simp add: jstring_accessor_def to_byte_def)

theorem unbind_during_engine_call_witness:
  "crashed (conc_run recording_engine [0, 0, 1, 1, 0]
     (conc_init \<lparr>clients = {}, heap = [0x20 \<mapsto> \<lparr>realm_path = [], java_session_ref = 7, sync_session = []\<rparr>],
        global_refs = {#7#}\<rparr>
      [[(\<lparr>utf_chars_ok = True, new_result = None\<rparr>, NotifyCommitHappened 0x20 5)],
       [(\<lparr>utf_chars_ok = True, new_result = None\<rparr>, Unbind 0x20)]])) = Some SessionFreedDuringCall"
  using unbind_during_engine_call [of "0x20" "\<lparr>clients = {}, heap = [0x20 \<mapsto> \<lparr>realm_path = [], java_session_ref = 7, sync_session = []\<rparr>],
        global_refs = {#7#}\<rparr> :: sync_call list bridge"
      "\<lparr>realm_path = [], java_session_ref = 7, sync_session = []\<rparr>" recording_engine "\<lparr>utf_chars_ok = True, new_result = None\<rparr>" 5 "\<lparr>utf_chars_ok = True, new_result = None\<rparr>"]
  by simp

end
