(* ===== verification/Utf8Codec.thy ===== *)
theory Utf8Codec
  imports JniStrings
begin

text \<open>
  The standard UTF-8 decoder (RFC 3629), as the engine reads the
  \<open>StringData\<close> it receives, and the relation between the two ways the bridge
  converts a Java string. \<open>utf8_decode\<close> accepts exactly the well-formed
  byte groups: no overlong form, no encoded surrogate, nothing above U+10FFFF;
  a four-byte group becomes a surrogate pair. The lemmas: decoding inverts
  realm-core's \<open>to_utf8\<close> on every string it converts (so the URL and the
  refresh token reach the engine losslessly and as well-formed UTF-8), and
  \<open>GetStringUTFChars\<close> and \<open>JStringAccessor\<close> produce the same bytes exactly for
  strings without U+0000 and without supplementary characters.
\<close>

section \<open>Decoding standard UTF-8\<close>

fun utf8_decode :: "bytes \<Rightarrow> jchar list option" where
  "utf8_decode [] = Some []"
| "utf8_decode (b # bs) =
     (let c = unat b in
      if c < 0x80 then map_option (Cons (to_jchar c)) (utf8_decode bs)
      else if c div 32 = 6 then
        (case bs of
           b2 # bs' \<Rightarrow>
             (let v = c mod 32 * 64 + unat b2 mod 64 in
              if unat b2 div 64 = 2 \<and> 0x80 \<le> v
              then map_option (Cons (to_jchar v)) (utf8_decode bs') else None)
         | [] \<Rightarrow> None)
      else if c div 16 = 14 then
        (case bs of
           b2 # b3 # bs' \<Rightarrow>
             (let v = c mod 16 * 4096 + unat b2 mod 64 * 64 + unat b3 mod 64 in
              if unat b2 div 64 = 2 \<and> unat b3 div 64 = 2 \<and> 0x800 \<le> v \<and> (v < 0xD800 \<or> 0xE000 \<le> v)
              then map_option (Cons (to_jchar v)) (utf8_decode bs') else None)
         | _ \<Rightarrow> None)
      else if c div 8 = 30 then
        (case bs of
           b2 # b3 # b4 # bs' \<Rightarrow>
             (let v = c mod 8 * 262144 + unat b2 mod 64 * 4096 + unat b3 mod 64 * 64 + unat b4 mod 64 in
              if unat b2 div 64 = 2 \<and> unat b3 div 64 = 2 \<and> unat b4 div 64 = 2 \<and> 0x10000 \<le> v \<and> v < 0x110000
              then map_option (\<lambda>us. to_jchar (0xD800 + (v - 0x10000) div 1024) #
                                    to_jchar (0xDC00 + (v - 0x10000) mod 1024) # us) (utf8_decode bs')
              else None)
         | _ \<Rightarrow> None)
      else None)"

section \<open>Decoding one group\<close>

lemma utf8_decode_1:
  "c < 0x80 \<Longrightarrow> utf8_decode (to_byte c # bs) = map_option (Cons (to_jchar c)) (utf8_decode bs)"
  by simp

lemma utf8_decode_2:
  assumes "0x80 \<le> c" "c < 0x800"
  shows "utf8_decode (utf8_2 c @ bs) = map_option (Cons (to_jchar c)) (utf8_decode bs)"
proof -
  have l: "(192 + c div 64) div 32 = 6" "(192 + c div 64) mod 32 = c div 64"
    using digit_div_mod [of "c div 64" 32 6] assms by simp_all
  have u: "unat (to_byte (192 + c div 64)) = 192 + c div 64" using assms by simp
  have "c div 64 * 64 + c mod 64 = c" by simp
  then show ?thesis using l u assms by (simp add: utf8_2_def Let_def)
qed

lemma utf8_decode_3:
  assumes "0x800 \<le> c" "c < 0x10000" "\<not> (0xD800 \<le> c \<and> c < 0xE000)"
  shows "utf8_decode (utf8_3 c @ bs) = map_option (Cons (to_jchar c)) (utf8_decode bs)"
proof -
  define x where "x = 224 + c div 4096"
  have l: "x div 32 = 7" "x div 16 = 14" "x mod 16 = c div 4096"
    using digit_div_mod [of "c div 4096" 32 7] digit_div_mod [of "c div 4096" 16 14] assms
    by (simp_all add: x_def)
  have u: "unat (to_byte x) = x" using assms by (simp add: x_def)
  have v: "x mod 16 * 4096 + c div 64 mod 64 * 64 + c mod 64 = c"
    using l(3) three_digits_64 [of c] by simp
  have s: "c < 0xD800 \<or> 0xE000 \<le> c" using assms(3) by linarith
  have "\<not> x < 128" using l(1) by linarith
  then show ?thesis using l u v s assms(1,2)
    by (simp add: utf8_3_def Let_def x_def [symmetric])
qed

lemma utf8_decode_4:
  assumes "0x10000 \<le> c" "c < 0x110000"
  shows "utf8_decode (utf8_4 c @ bs) =
    map_option (\<lambda>us. to_jchar (0xD800 + (c - 0x10000) div 1024) #
                     to_jchar (0xDC00 + (c - 0x10000) mod 1024) # us) (utf8_decode bs)"
proof -
  define x where "x = 240 + c div 262144"
  have l: "x div 32 = 7" "x div 16 = 15" "x div 8 = 30" "x mod 8 = c div 262144"
    using digit_div_mod [of "c div 262144" 32 7] digit_div_mod [of "c div 262144" 16 15]
      digit_div_mod [of "c div 262144" 8 30] assms
    by (simp_all add: x_def)
  have u: "unat (to_byte x) = x" using assms by (simp add: x_def)
  have v: "x mod 8 * 262144 + c div 4096 mod 64 * 4096 + c div 64 mod 64 * 64 + c mod 64 = c"
    using l(4) four_digits_64 [of c] by simp
  have "\<not> x < 128" using l(1) by linarith
  then show ?thesis using l u v assms
    by (simp add: utf8_4_def Let_def x_def [symmetric])
qed

lemma surrogate_pair_digits:
  assumes "0xD800 \<le> v" "v < 0xDC00" "0xDC00 \<le> v2" "v2 < 0xE000"
  shows "0xD800 + (0x10000 + (v - 0xD800) * 0x400 + (v2 - 0xDC00) - 0x10000) div 1024 = v \<and>
    0xDC00 + (0x10000 + (v - 0xD800) * 0x400 + (v2 - 0xDC00) - 0x10000) mod 1024 = (v2::nat)"
proof -
  have "v2 - 0xDC00 < 1024" using assms by simp
  then have "((v - 0xD800) * 1024 + (v2 - 0xDC00)) div 1024 = v - 0xD800 \<and>
    ((v - 0xD800) * 1024 + (v2 - 0xDC00)) mod 1024 = v2 - 0xDC00"
    by (rule digit_div_mod)
  then show ?thesis using assms by simp
qed

lemma utf16_to_utf8_roundtrip:
  "utf16_to_utf8 us = Some bs \<Longrightarrow> utf8_decode bs = Some us"
proof (induction rule: utf16_to_utf8_Some_induct)
  case (Two u us bs)
  then show ?case by (simp add: utf8_decode_2)
next
  case (Three u us bs)
  then show ?case using utf8_decode_3 [of "unat u" bs] unat_jchar_bound [of u] by simp
next
  case (Pair u u2 us bs)
  then have "0x10000 \<le> 0x10000 + (unat u - 0xD800) * 0x400 + (unat u2 - 0xDC00)"
    "0x10000 + (unat u - 0xD800) * 0x400 + (unat u2 - 0xDC00) < 0x110000"
    by simp_all
  from utf8_decode_4 [OF this, of bs] surrogate_pair_digits [of "unat u" "unat u2"] Pair
  show ?case by (simp only: option.map to_jchar_unat)
qed simp_all

section \<open>The two conversions compared\<close>

lemma mutf8_unit_plain:
  "u \<noteq> 0 \<Longrightarrow> \<not> (0xD800 \<le> unat u \<and> unat u < 0xE000) \<Longrightarrow>
     utf16_to_utf8 (u # us) = map_option (\<lambda>bs. mutf8_unit u @ bs) (utf16_to_utf8 us)"
  using unat_jchar_bound [of u] by (auto simp: mutf8_unit_def Let_def unat_eq_zero append_single_fun)

lemma utf8_4_lead_ne_utf8_3:
  assumes "0x10000 \<le> c" "c < 0x110000" "0xD800 \<le> v" "v < 0xDC00"
  shows "utf8_4 c @ xs \<noteq> utf8_3 v @ ys"
proof -
  have "unat (to_byte (240 + c div 262144)) = 240 + c div 262144" using assms(2) by simp
  moreover have "unat (to_byte (224 + v div 4096)) = 237" using assms(3,4) by simp
  ultimately have "to_byte (240 + c div 262144) \<noteq> to_byte (224 + v div 4096)" by auto
  then show ?thesis by (simp add: utf8_4_def utf8_3_def)
qed

lemma utf16_to_utf8_eq_mutf8:
  "valid_utf16 us \<Longrightarrow>
     utf16_to_utf8 us = Some (mutf8 us) \<longleftrightarrow> (\<forall>u\<in>set us. u \<noteq> 0 \<and> \<not> is_high_surrogate u)"
proof (induction us rule: valid_utf16.induct)
  case 1
  then show ?case by (simp add: mutf8_def)
next
  case (2 u us)
  show ?case
  proof (cases "u = 0")
    case True
    have "to_byte 0 \<noteq> to_byte 192" by (simp add: to_byte_def)
    with True show ?thesis
      by (auto simp: mutf8_def mutf8_unit_def utf8_2_def)
  next
    case nz: False
    show ?thesis
    proof (cases "is_high_surrogate u")
      case True
      then obtain u2 us' where us: "us = u2 # us'" "is_low_surrogate u2"
        using 2(3) by (auto split: list.splits)
      have "0xD800 \<le> unat u" "unat u < 0xDC00" using True by (simp_all add: is_high_surrogate_def)
      moreover have "0xDC00 \<le> unat u2" "unat u2 < 0xE000" using us(2) by (simp_all add: is_low_surrogate_def)
      ultimately show ?thesis using True utf8_4_lead_ne_utf8_3
        by (auto simp: us mutf8_def mutf8_unit_def Let_def split: option.splits)
    next
      case nh: False
      with 2(3) have nl: "\<not> is_low_surrogate u" and v: "valid_utf16 us" by simp_all
      have ns: "\<not> (0xD800 \<le> unat u \<and> unat u < 0xE000)"
        using nh nl by (auto simp: is_high_surrogate_def is_low_surrogate_def)
      have "utf16_to_utf8 (u # us) = map_option (\<lambda>bs. mutf8_unit u @ bs) (utf16_to_utf8 us)"
        by (rule mutf8_unit_plain [OF nz ns])
      then have "utf16_to_utf8 (u # us) = Some (mutf8 (u # us)) \<longleftrightarrow> utf16_to_utf8 us = Some (mutf8 us)"
        by (auto simp del: utf16_to_utf8.simps simp: mutf8_def)
      then show ?thesis using 2(2) [OF nh v] nz nh by simp
    qed
  qed
qed

section \<open>Properties of the decoder\<close>

text \<open>
  C7: round trip of \<open>JStringAccessor\<close>: whenever it converts a Java string,
  the bytes it produces decode, as standard UTF-8, back to exactly that string.
  The remote URL of \<open>nativeBind\<close> and the token of \<open>nativeRefresh\<close> reach the
  engine as well-formed UTF-8 and without loss.
\<close>

theorem jstring_accessor_roundtrip:
  "jstring_accessor (JStr us) = Inr (Some bs) \<Longrightarrow> utf8_decode bs = Some us"
  by (auto simp: jstring_accessor_def utf16_to_utf8_roundtrip split: option.splits)

text \<open>
  C27: on strings without surrogates the two conversions of the bridge agree
  exactly when the string has no U+0000: \<open>GetStringUTFChars\<close> (the token of
  \<open>nativeBind\<close>, line 67) writes U+0000 as the two bytes \<open>C0 80\<close> and
  \<open>JStringAccessor\<close> (the token of \<open>nativeRefresh\<close>, line 95) as one byte
  \<open>00\<close>, while every other unit below U+D800 or from U+E000 takes the same bytes
  in both. A token containing U+0000 therefore reaches the engine as two
  different byte strings on bind and on refresh. Strings with surrogates are
  left out: how \<open>GetStringUTFChars\<close> writes a surrogate pair depends on the
  Java runtime.
\<close>

theorem conversions_agree_iff:
  "\<forall>u\<in>set us. \<not> is_high_surrogate u \<and> \<not> is_low_surrogate u \<Longrightarrow>
     (\<exists>bs. std_string_of_utf_chars True (JStr us) = Inr bs \<and> jstring_accessor (JStr us) = Inr (Some bs)) \<longleftrightarrow>
     0 \<notin> set us"
proof -
  assume ns: "\<forall>u\<in>set us. \<not> is_high_surrogate u \<and> \<not> is_low_surrogate u"
  then have v: "valid_utf16 us" by (induction us) auto
  from ns have "(\<forall>u\<in>set us. u \<noteq> 0 \<and> \<not> is_high_surrogate u) \<longleftrightarrow> 0 \<notin> set us" by blast
  with utf16_to_utf8_eq_mutf8 [OF v] have e: "utf16_to_utf8 us = Some (mutf8 us) \<longleftrightarrow> 0 \<notin> set us"
    by simp
  then show ?thesis
    by (cases "utf16_to_utf8 us") (auto simp: utf_chars_ok_string jstring_accessor_def)
qed

theorem jstring_accessor_roundtrip_witness:
  "jstring_accessor (JStr [0xD83D, 0xDE00, 0xE9]) = Inr (Some [0xF0, 0x9F, 0x98, 0x80, 0xC3, 0xA9]) \<and>
   utf8_decode [0xF0, 0x9F, 0x98, 0x80, 0xC3, 0xA9] = Some [0xD83D, 0xDE00, 0xE9]"
proof -
  have a: "jstring_accessor (JStr [0xD83D, 0xDE00, 0xE9]) = Inr (Some [0xF0, 0x9F, 0x98, 0x80, 0xC3, 0xA9])"
    by (simp add: jstring_accessor_def utf8_4_def utf8_2_def to_byte_def)
  show ?thesis using a jstring_accessor_roundtrip [OF a] by simp
qed

theorem conversions_agree_witness:
  "\<not> (\<exists>bs. std_string_of_utf_chars True (JStr [0x74, 0]) = Inr bs \<and>
        jstring_accessor (JStr [0x74, 0]) = Inr (Some bs)) \<and>
   std_string_of_utf_chars True (JStr [0x74, 0xE9]) = Inr [0x74, 0xC3, 0xA9] \<and>
   jstring_accessor (JStr [0x74, 0xE9]) = Inr (Some [0x74, 0xC3, 0xA9])"
proof -
  have a: "\<not> (\<exists>bs. std_string_of_utf_chars True (JStr [0x74, 0]) = Inr bs \<and>
        jstring_accessor (JStr [0x74, 0]) = Inr (Some bs))"
    using conversions_agree_iff [of "[0x74, 0]"] by (simp add: is_high_surrogate_def is_low_surrogate_def)
  have b: "std_string_of_utf_chars True (JStr [0x74, 0xE9]) = Inr [0x74, 0xC3, 0xA9]"
    by (simp add: utf_chars_ok_string mutf8_def mutf8_unit_def utf8_2_def to_byte_def)
  have c: "jstring_accessor (JStr [0x74, 0xE9]) = Inr (Some [0x74, 0xC3, 0xA9])"
    by (simp add: jstring_accessor_def utf8_2_def to_byte_def)
  from a b c show ?thesis by simp
qed

end
