(* ===== verification/EngineLifecycle.thy ===== *)
theory EngineLifecycle
  imports Lifecycle
begin

text \<open>
  The bridge composed with an engine that enforces the spec's per-handle
  lifecycle (section 4.1): a session starts \<open>created\<close>, \<open>bind\<close> takes it to
  \<open>bound\<close>, and refresh and commit notifications are valid only when bound. The
  bridge itself keeps no lifecycle state and forwards every call; the spec
  delegates the lifecycle to the engine, which rejects a call out of order
  with an exception that \<open>CATCH_STD()\<close> turns into a Java exception (error
  category (c) of section 7). \<open>lifecycle_engine\<close> is such an engine over the
  state \<open>handle_state\<close>; a rejected call leaves its state unchanged.
  \<open>lifecycle_errors\<close> and \<open>lifecycle_final\<close> run the spec's state machine,
  marking each operation it rejects. The lemma: on a live handle the
  composition reaches exactly the spec's state and raises a Java exception for
  exactly the rejected operations, and never undefined behaviour (C14).
\<close>

section \<open>An engine enforcing the lifecycle\<close>

definition lifecycle_engine :: "handle_state sync_engine" where
  "lifecycle_engine =
     \<lparr>open_session = (\<lambda>client path. Inr HCreated),
      bind_session = (\<lambda>q url tok. case q of HCreated \<Rightarrow> (HBound, None) | HBound \<Rightarrow> (HBound, Some (SyncError 1))),
      refresh_session = (\<lambda>q tok. case q of HCreated \<Rightarrow> (HCreated, Some (SyncError 2)) | HBound \<Rightarrow> (HBound, None)),
      notify_session = (\<lambda>q v. case q of HCreated \<Rightarrow> (HCreated, Some (SyncError 3)) | HBound \<Rightarrow> (HBound, None))\<rparr>"

fun lifecycle_errors :: "handle_state \<Rightarrow> session_op list \<Rightarrow> bool list" where
  "lifecycle_errors q [] = []"
| "lifecycle_errors q (op # ops) =
     (case lifecycle_next q op of
        None \<Rightarrow> True # lifecycle_errors q ops
      | Some q' \<Rightarrow> False # lifecycle_errors q' ops)"

fun lifecycle_final :: "handle_state \<Rightarrow> session_op list \<Rightarrow> handle_state" where
  "lifecycle_final q [] = q"
| "lifecycle_final q (op # ops) =
     (case lifecycle_next q op of None \<Rightarrow> lifecycle_final q ops | Some q' \<Rightarrow> lifecycle_final q' ops)"

section \<open>Lemmas\<close>

lemma lifecycle_engine_apply:
  "op_forward op = Some c \<Longrightarrow>
     fst (engine_apply lifecycle_engine q c) = (case lifecycle_next q op of None \<Rightarrow> q | Some q' \<Rightarrow> q') \<and>
     (snd (engine_apply lifecycle_engine q c) = None) = (lifecycle_next q op \<noteq> None)"
  by (cases op; cases q)
     (auto simp: lifecycle_engine_def split: jstring.splits sum.splits)

lemma lifecycle_engine_run:
  "\<forall>op\<in>set ops. op_forward op \<noteq> None \<Longrightarrow>
     engine_run lifecycle_engine q (map (the \<circ> op_forward) ops) = lifecycle_final q ops \<and>
     map (\<lambda>r. snd r \<noteq> None) (engine_results lifecycle_engine q (map (the \<circ> op_forward) ops)) =
       lifecycle_errors q ops"
proof (induction ops arbitrary: q)
  case Nil
  then show ?case by simp
next
  case (Cons op ops)
  then obtain c where c: "op_forward op = Some c" by auto
  from Cons have ih: "engine_run lifecycle_engine q' (map (the \<circ> op_forward) ops) = lifecycle_final q' ops \<and>
     map (\<lambda>r. snd r \<noteq> None) (engine_results lifecycle_engine q' (map (the \<circ> op_forward) ops)) =
       lifecycle_errors q' ops" for q'
    by (simp add: comp_def)
  show ?case
    using lifecycle_engine_apply [OF c, of q] ih
    by (cases "lifecycle_next q op") (simp_all add: c comp_def)
qed

section \<open>The composition\<close>

text \<open>
  C14: the bridge with a lifecycle-enforcing engine refines the spec's state
  machine. On a live handle, for every sequence of session operations whose
  strings convert, the calls return without undefined behaviour, one result per
  call; the engine session ends in the state the spec's lifecycle reaches; and
  the calls that raise a Java exception are exactly the operations the
  lifecycle rejects.
\<close>

theorem lifecycle_engine_refines:
  assumes "h \<noteq> 0" "heap st h = Some w" "utf_chars_ok env" "\<forall>op\<in>set ops. op_forward op \<noteq> None"
    and "sync_session w = q"
  shows "\<exists>rs. run lifecycle_engine (map (\<lambda>op. (env, op_call h op)) ops) st =
      Inr (rs, st\<lparr>heap := (heap st)(h \<mapsto> w\<lparr>sync_session := lifecycle_final q ops\<rparr>)\<rparr>) \<and>
    map (\<lambda>r. snd r \<noteq> None) rs = lifecycle_errors q ops"
  using run_session_results [OF assms(1-4), of lifecycle_engine] lifecycle_engine_run [OF assms(4), of q] assms(5)
  by simp

theorem lifecycle_engine_refines_witness:
  "\<exists>rs. run lifecycle_engine (map (\<lambda>op. (\<lparr>utf_chars_ok = True, new_result = None\<rparr>, op_call 0x20 op)) [OpNotify 5, OpBind (JStr [0x75]) (JStr [0x74]), OpNotify 6])
      \<lparr>clients = {}, heap = [0x20 \<mapsto> \<lparr>realm_path = [], java_session_ref = 7, sync_session = HCreated\<rparr>], global_refs = {#7#}\<rparr> =
      Inr (rs, \<lparr>clients = {}, heap = [0x20 \<mapsto> \<lparr>realm_path = [], java_session_ref = 7, sync_session = HBound\<rparr>],
        global_refs = {#7#}\<rparr>) \<and>
    map (\<lambda>r. snd r \<noteq> None) rs = [True, False, False]"
  using lifecycle_engine_refines [of "0x20" "\<lparr>clients = {}, heap = [0x20 \<mapsto> \<lparr>realm_path = [], java_session_ref = 7, sync_session = HCreated\<rparr>], global_refs = {#7#}\<rparr>" "\<lparr>realm_path = [], java_session_ref = 7, sync_session = HCreated\<rparr>" "\<lparr>utf_chars_ok = True, new_result = None\<rparr>"
      "[OpNotify 5, OpBind (JStr [0x75]) (JStr [0x74]), OpNotify 6]" HCreated]
  by (simp add: jstring_accessor_def to_byte_def)

end
