(* ===== verification/JavaCaller.thy ===== *)
theory JavaCaller
  imports Lifecycle
begin

text \<open>
  The Java side of the bridge. \<open>io.realm.objectserver.session.Session\<close>
  (not under \<open>src/\<close>; modelled from the spec, sections 3 to 5) keeps the handle
  of its native session in a field: it stores what \<open>nativeCreateSession\<close>
  returns, passes the field to every other native method, and clears it after
  \<open>nativeUnbind\<close>. A \<open>caller\<close> is a set of such Java objects, numbered,
  with their fields, over the native store. \<open>caller_step\<close> performs one
  method of one object and \<open>caller_run\<close> a sequence of them; a Java exception
  the bridge leaves pending is handed back to the caller, who goes on.

  \<open>contract_ok\<close> is the caller's side of the contract the spec states: a
  session is opened once per object, with a path, through a live or null
  client; a session method is called only while the object holds a handle;
  \<open>bind\<close> gets a non-null token; the JVM gets the \<open>GetStringUTFChars\<close>
  buffer and \<open>operator new\<close> returns fresh memory. \<open>obeys\<close> checks it before
  every step of a run. The lemmas: a run that obeys the contract never reaches
  undefined behaviour and keeps every object's handle pointing at its own live
  wrapper (C9), and once every object has closed its session the native store
  is exactly what it was before the run: no wrapper and no global reference
  leaks (C10).
\<close>

section \<open>Java session objects\<close>

datatype caller_op =
    JOpen nat jni_env jobj jlong jstring
  | JCall nat jni_env session_op
  | JClose nat

record 's caller =
  pointer :: "nat \<Rightarrow> jlong"
  native :: "'s bridge"

fun caller_step :: "'s sync_engine \<Rightarrow> caller_op \<Rightarrow> 's caller \<Rightarrow> ub + (java_exc option \<times> 's caller)" where
  "caller_step eng (JOpen i env obj cp path) c =
     (case nativeCreateSession eng env obj cp path (native c) of
        Undefined u \<Rightarrow> Inl u
      | Returned h ex st' \<Rightarrow> Inr (ex, c\<lparr>pointer := (pointer c)(i := h), native := st'\<rparr>))"
| "caller_step eng (JCall i env op) c =
     (case bridge_step eng env (op_call (pointer c i) op) (native c) of
        Undefined u \<Rightarrow> Inl u
      | Returned v ex st' \<Rightarrow> Inr (ex, c\<lparr>native := st'\<rparr>))"
| "caller_step eng (JClose i) c =
     (case nativeUnbind (pointer c i) (native c) of
        Undefined u \<Rightarrow> Inl u
      | Returned v ex st' \<Rightarrow> Inr (ex, c\<lparr>pointer := (pointer c)(i := 0), native := st'\<rparr>))"

fun caller_run :: "'s sync_engine \<Rightarrow> caller_op list \<Rightarrow> 's caller \<Rightarrow> ub + (java_exc option list \<times> 's caller)" where
  "caller_run eng [] c = Inr ([], c)"
| "caller_run eng (op # ops) c =
     (case caller_step eng op c of
        Inl u \<Rightarrow> Inl u
      | Inr (ex, c') \<Rightarrow>
          (case caller_run eng ops c' of
             Inl u \<Rightarrow> Inl u
           | Inr (exs, c'') \<Rightarrow> Inr (ex # exs, c'')))"

section \<open>The caller's contract\<close>

fun op_args_ok :: "jni_env \<Rightarrow> session_op \<Rightarrow> bool" where
  "op_args_ok env (OpBind url tok) = (tok \<noteq> JNull \<and> utf_chars_ok env)"
| "op_args_ok env (OpRefresh tok) = True"
| "op_args_ok env (OpNotify v) = True"

fun contract_ok :: "'s caller \<Rightarrow> caller_op \<Rightarrow> bool" where
  "contract_ok c (JOpen i env obj cp path) =
     (pointer c i = 0 \<and> path \<noteq> JNull \<and> utf_chars_ok env \<and> fresh_alloc env (native c) \<and>
      (cp = 0 \<or> cp \<in> clients (native c)))"
| "contract_ok c (JCall i env op) = (pointer c i \<noteq> 0 \<and> op_args_ok env op)"
| "contract_ok c (JClose i) = True"

fun obeys :: "'s sync_engine \<Rightarrow> caller_op list \<Rightarrow> 's caller \<Rightarrow> bool" where
  "obeys eng [] c = True"
| "obeys eng (op # ops) c =
     (contract_ok c op \<and>
      (case caller_step eng op c of Inl u \<Rightarrow> True | Inr (ex, c') \<Rightarrow> obeys eng ops c'))"

text \<open>The invariant, relative to the native store \<open>st0\<close> before the run:
  the store is well-formed and has the same clients; distinct objects hold
  distinct handles; each handle held is a live wrapper that did not exist in
  \<open>st0\<close>; every other address is as in \<open>st0\<close>.\<close>

definition caller_inv :: "'s bridge \<Rightarrow> 's caller \<Rightarrow> bool" where
  "caller_inv st0 c \<longleftrightarrow>
     bridge_inv (native c) \<and> clients (native c) = clients st0 \<and>
     (\<forall>i j. pointer c i = pointer c j \<longrightarrow> pointer c i \<noteq> 0 \<longrightarrow> i = j) \<and>
     (\<forall>i. pointer c i \<noteq> 0 \<longrightarrow> pointer c i \<in> dom (heap (native c)) \<and> heap st0 (pointer c i) = None) \<and>
     (\<forall>a. a \<noteq> 0 \<longrightarrow> (\<forall>i. pointer c i \<noteq> a) \<longrightarrow> heap (native c) a = heap st0 a)"

section \<open>Lemmas\<close>

lemma caller_inv_init:
  "bridge_inv st \<Longrightarrow> caller_inv st \<lparr>pointer = (\<lambda>i. 0), native = st\<rparr>"
  by (simp add: caller_inv_def)

lemma utf_chars_nonnull:
  "js \<noteq> JNull \<Longrightarrow> std_string_of_utf_chars True js = Inr (case js of JStr us \<Rightarrow> mutf8 us)"
  by (cases js) (simp_all add: utf_chars_ok_string)

text \<open>A session method through a live handle returns, and changes at most the
  engine state of that session.\<close>

lemma op_call_returns:
  assumes "p \<noteq> 0" "p \<in> dom (heap st)" "op_args_ok env op"
  shows "\<exists>v ex st'. bridge_step eng env (op_call p op) st = Returned v ex st' \<and> session_step p st st'"
proof -
  obtain w where w: "heap st p = Some w" using assms(2) by blast
  have "\<exists>v ex st'. bridge_step eng env (op_call p op) st = Returned v ex st'"
    using assms(1,3) w
    by (cases op)
       (auto simp: nativeBind_def nativeRefresh_def nativeNotifyCommitHappened_def catch_std_def
          utf_chars_nonnull as_void_def split: sum.splits)
  then obtain v ex st' where r: "bridge_step eng env (op_call p op) st = Returned v ex st'" by blast
  then have "session_step p st st'"
    by (cases op) (auto intro: nativeBind_session_step nativeRefresh_session_step nativeNotify_session_step)
  with r show ?thesis by blast
qed

lemma caller_open_safe:
  assumes inv: "caller_inv st0 c" and ok: "contract_ok c (JOpen i env obj cp path)"
  shows "\<exists>ex c'. caller_step eng (JOpen i env obj cp path) c = Inr (ex, c') \<and> caller_inv st0 c'"
proof -
  have "\<exists>h ex st'. nativeCreateSession eng env obj cp path (native c) = Returned h ex st'"
    using ok
    by (auto simp: nativeCreateSession_def sync_client_of_def utf_chars_nonnull new_session_handle_def
        catch_std_def fresh_alloc_def split: option.splits sum.splits)
  then obtain h ex st' where r: "nativeCreateSession eng env obj cp path (native c) = Returned h ex st'"
    by blast
  let ?c' = "c\<lparr>pointer := (pointer c)(i := h), native := st'\<rparr>"
  have "caller_inv st0 ?c'"
    using nativeCreate_Returned [OF r]
  proof
    assume "h = 0 \<and> st' = native c"
    with ok have "?c' = c" by (simp add: fun_upd_idem)
    with inv show ?thesis by simp
  next
    assume "\<exists>w. new_result env = Some h \<and> cp \<noteq> 0 \<and> cp \<in> clients (native c) \<and> ex = None \<and>
      st' = (native c)\<lparr>heap := (heap (native c))(h \<mapsto> w),
                       global_refs := global_refs (native c) + {#java_session_ref w#}\<rparr>"
    then obtain w where a: "new_result env = Some h"
      and st': "st' = (native c)\<lparr>heap := (heap (native c))(h \<mapsto> w),
                       global_refs := global_refs (native c) + {#java_session_ref w#}\<rparr>"
      by blast
    from ok a have fresh: "h \<noteq> 0" "h \<notin> dom (heap (native c))"
      by (simp_all add: fresh_alloc_def)
    have bi: "bridge_inv st'"
      using nativeCreate_inv [OF _ _ r] inv ok by (simp add: caller_inv_def)
    have nh: "\<forall>k. pointer c k \<noteq> h"
      using inv fresh by (auto simp: caller_inv_def)
    with inv fresh have h0: "heap st0 h = None"
      by (auto simp: caller_inv_def)
    show ?thesis
      using inv ok bi fresh nh h0 unfolding caller_inv_def st'
      by (auto simp: domIff)
  qed
  with r show ?thesis by simp
qed

lemma caller_call_safe:
  assumes inv: "caller_inv st0 c" and ok: "contract_ok c (JCall i env op)"
  shows "\<exists>ex c'. caller_step eng (JCall i env op) c = Inr (ex, c') \<and> caller_inv st0 c'"
proof -
  from inv ok have "pointer c i \<noteq> 0" "pointer c i \<in> dom (heap (native c))" "op_args_ok env op"
    by (simp_all add: caller_inv_def)
  from op_call_returns [OF this] obtain v ex st' where
    r: "bridge_step eng env (op_call (pointer c i) op) (native c) = Returned v ex st'"
    and s: "session_step (pointer c i) (native c) st'"
    by blast
  have bi: "bridge_inv st'"
    using session_step_inv [OF s] inv by (simp add: caller_inv_def)
  have "caller_inv st0 (c\<lparr>native := st'\<rparr>)"
    using inv bi session_step_frame [OF s] unfolding caller_inv_def
    by (auto simp: domIff) metis+
  with r show ?thesis by simp
qed

lemma caller_close_safe:
  assumes inv: "caller_inv st0 c"
  shows "\<exists>ex c'. caller_step eng (JClose i) c = Inr (ex, c') \<and> caller_inv st0 c'"
proof (cases "pointer c i = 0")
  case True
  then have "caller_step eng (JClose i) c = Inr (None, c)"
    by (simp add: nativeUnbind_def fun_upd_idem)
  with inv show ?thesis by blast
next
  case False
  with inv obtain w where w: "heap (native c) (pointer c i) = Some w" and h0: "heap st0 (pointer c i) = None"
    by (auto simp: caller_inv_def)
  let ?st' = "(native c)\<lparr>heap := (heap (native c))(pointer c i := None),
                global_refs := global_refs (native c) - {#java_session_ref w#}\<rparr>"
  have r: "nativeUnbind (pointer c i) (native c) = Returned () None ?st'"
    using False w by (simp add: nativeUnbind_def)
  have bi: "bridge_inv ?st'"
    using nativeUnbind_inv [OF _ r] inv by (simp add: caller_inv_def)
  have "caller_inv st0 (c\<lparr>pointer := (pointer c)(i := 0), native := ?st'\<rparr>)"
    using inv bi False h0 unfolding caller_inv_def
    by (auto simp: domIff)
  with r show ?thesis by simp
qed

lemma caller_step_safe:
  assumes "caller_inv st0 c" "contract_ok c op"
  shows "\<exists>ex c'. caller_step eng op c = Inr (ex, c') \<and> caller_inv st0 c'"
  using assms
  by (cases op) (blast intro: caller_open_safe caller_call_safe caller_close_safe)+

lemma caller_run_safe:
  "caller_inv st0 c \<Longrightarrow> obeys eng ops c \<Longrightarrow>
     \<exists>exs c'. caller_run eng ops c = Inr (exs, c') \<and> length exs = length ops \<and> caller_inv st0 c'"
proof (induction ops arbitrary: c)
  case Nil
  then show ?case by simp
next
  case (Cons op ops)
  from Cons.prems obtain ex c1 where s: "caller_step eng op c = Inr (ex, c1)" and i: "caller_inv st0 c1"
    using caller_step_safe by fastforce
  with Cons.prems have "obeys eng ops c1" by simp
  from Cons.IH [OF i this] s show ?case by auto
qed

text \<open>Once no object holds a handle, the store is the one the run started
  from: the wrappers created are exactly the wrappers deleted.\<close>

lemma caller_inv_closed:
  assumes "caller_inv st0 c" "bridge_inv st0" "\<forall>i. pointer c i = 0"
  shows "native c = st0"
proof -
  have "heap (native c) a = heap st0 a" for a
  proof (cases "a = 0")
    case True
    with assms(1,2) show ?thesis by (auto simp: caller_inv_def bridge_inv_def domIff)
  next
    case False
    with assms show ?thesis by (simp add: caller_inv_def)
  qed
  then have h: "heap (native c) = heap st0" by blast
  with assms(1,2) have "global_refs (native c) = global_refs st0"
    by (simp add: caller_inv_def bridge_inv_def)
  with h assms(1) show ?thesis by (simp add: caller_inv_def bridge.equality)
qed

text \<open>The definitions a concrete run of the caller unfolds.\<close>

lemmas caller_eval_simps =
  nativeCreateSession_def sync_client_of_def utf_chars_ok_string new_session_handle_def
  new_jni_session_def nativeBind_def nativeRefresh_def nativeNotifyCommitHappened_def
  jstring_accessor_def to_byte_def nativeUnbind_def as_void_def fresh_alloc_def fun_upd_idem fun_upd_twist

section \<open>A Java caller that keeps the contract\<close>

text \<open>
  C9: the spec's contract is enough for memory safety. Starting from any
  well-formed native store and Java objects that hold no handle yet, every
  sequence of opens, session methods and closes that keeps the caller's side of
  the contract runs to its end without undefined behaviour, one result per
  call, and leaves each object's handle pointing at a live wrapper of its own.
  Closing twice is harmless because the field is cleared after
  \<open>nativeUnbind\<close>, whose \<open>delete\<close> of \<open>NULL\<close> does nothing (line 85).
\<close>

theorem contract_prevents_undefined:
  assumes "bridge_inv st" "obeys eng ops \<lparr>pointer = (\<lambda>i. 0), native = st\<rparr>"
  shows "\<exists>exs c'. caller_run eng ops \<lparr>pointer = (\<lambda>i. 0), native = st\<rparr> = Inr (exs, c') \<and>
     length exs = length ops \<and> caller_inv st c'"
  using caller_run_safe [OF caller_inv_init [OF assms(1)] assms(2)] .

text \<open>
  C10: sessions do not leak. When a run that keeps the contract ends with
  every Java object closed, the native store is exactly the one it started
  from: every wrapper created was deleted, every global reference taken was
  released, and the wrappers that existed before were not touched.
\<close>

theorem closed_sessions_restore_store:
  assumes "bridge_inv st" "obeys eng ops \<lparr>pointer = (\<lambda>i. 0), native = st\<rparr>"
    and "caller_run eng ops \<lparr>pointer = (\<lambda>i. 0), native = st\<rparr> = Inr (exs, c')"
    and "\<forall>i. pointer c' i = 0"
  shows "native c' = st"
proof -
  from caller_run_safe [OF caller_inv_init [OF assms(1)] assms(2)] assms(3)
  have "caller_inv st c'" by auto
  from caller_inv_closed [OF this assms(1,4)] show ?thesis .
qed

theorem contract_prevents_undefined_witness:
  "caller_run recording_engine
     [JOpen 0 \<lparr>utf_chars_ok = True, new_result = Some 0x20\<rparr> 7 0x10 (JStr [0x61]),
      JCall 0 \<lparr>utf_chars_ok = True, new_result = None\<rparr> (OpBind (JStr [0x75]) (JStr [0x74])),
      JCall 0 \<lparr>utf_chars_ok = True, new_result = None\<rparr> (OpNotify 5),
      JClose 0, JClose 0]
     \<lparr>pointer = (\<lambda>i. 0), native = \<lparr>clients = {0x10}, heap = Map.empty, global_refs = {#}\<rparr>\<rparr> =
   Inr ([None, None, None, None, None],
        \<lparr>pointer = (\<lambda>i. 0), native = \<lparr>clients = {0x10}, heap = Map.empty, global_refs = {#}\<rparr>\<rparr>)"
  using contract_prevents_undefined [of "\<lparr>clients = {0x10}, heap = Map.empty, global_refs = {#}\<rparr>"
      recording_engine
      "[JOpen 0 \<lparr>utf_chars_ok = True, new_result = Some 0x20\<rparr> 7 0x10 (JStr [0x61]),
        JCall 0 \<lparr>utf_chars_ok = True, new_result = None\<rparr> (OpBind (JStr [0x75]) (JStr [0x74])),
        JCall 0 \<lparr>utf_chars_ok = True, new_result = None\<rparr> (OpNotify 5),
        JClose 0, JClose 0]"]
  by (simp add: bridge_inv_def live_refs_def recording_engine_def caller_eval_simps fun_upd_idem_iff)

theorem closed_sessions_restore_witness:
  "(case caller_run recording_engine
     [JOpen 0 \<lparr>utf_chars_ok = True, new_result = Some 0x20\<rparr> 7 0x10 (JStr [0x61]),
      JOpen 1 \<lparr>utf_chars_ok = True, new_result = Some 0x30\<rparr> 8 0x10 (JStr [0x62]),
      JCall 1 \<lparr>utf_chars_ok = True, new_result = None\<rparr> (OpRefresh (JStr [0x74])),
      JCall 0 \<lparr>utf_chars_ok = True, new_result = None\<rparr> (OpBind (JStr [0x75]) (JStr [0x74])),
      JClose 0, JClose 1]
     \<lparr>pointer = (\<lambda>i. 0), native = \<lparr>clients = {0x10}, heap = Map.empty, global_refs = {#}\<rparr>\<rparr> of
     Inl u \<Rightarrow> False
   | Inr (exs, c') \<Rightarrow> native c' = \<lparr>clients = {0x10}, heap = Map.empty, global_refs = {#}\<rparr>)"
proof -
  let ?st = "\<lparr>clients = {0x10::addr}, heap = Map.empty, global_refs = {#}\<rparr> :: sync_call list bridge"
  let ?ops = "[JOpen 0 \<lparr>utf_chars_ok = True, new_result = Some 0x20\<rparr> 7 0x10 (JStr [0x61]),
      JOpen 1 \<lparr>utf_chars_ok = True, new_result = Some 0x30\<rparr> 8 0x10 (JStr [0x62]),
      JCall 1 \<lparr>utf_chars_ok = True, new_result = None\<rparr> (OpRefresh (JStr [0x74])),
      JCall 0 \<lparr>utf_chars_ok = True, new_result = None\<rparr> (OpBind (JStr [0x75]) (JStr [0x74])),
      JClose 0, JClose 1]"
  have r: "caller_run recording_engine ?ops \<lparr>pointer = (\<lambda>i. 0), native = ?st\<rparr> =
    Inr ([None, None, None, None, None, None],
         \<lparr>pointer = (\<lambda>i. 0), native = \<lparr>clients = {0x10}, heap = Map.empty, global_refs = {#}\<rparr>\<rparr>)"
    by (simp add: recording_engine_def caller_eval_simps)
  show ?thesis
    using closed_sessions_restore_store [of ?st recording_engine ?ops "[None, None, None, None, None, None]"
        "\<lparr>pointer = (\<lambda>i. 0), native = \<lparr>clients = {0x10}, heap = Map.empty, global_refs = {#}\<rparr>\<rparr>"] r
    by (simp add: bridge_inv_def live_refs_def recording_engine_def caller_eval_simps)
qed

end
