(* ===== verification/Spec2Isabelle.thy ===== *)
theory Spec2Isabelle
  imports Threads Utf8Codec EngineLifecycle JavaCaller
begin

text \<open>
  \<^bold>\<open>A verification model of realm-java's sync session bridge.\<close>

  \<^bold>\<open>The program.\<close> \<open>src/realm/realm-library/src/main/cpp/io_realm_objectserver_session_Session.cpp\<close>
  holds five JNI functions through which the Java class
  \<open>io.realm.objectserver.session.Session\<close> drives a native sync session:
  \<open>nativeCreateSession\<close> (lines 41-58) allocates a \<open>JNISession\<close> wrapper for a
  \<open>sync::Client\<close> and a local path and returns its address as a \<open>jlong\<close>
  handle; \<open>nativeBind\<close> (60-77), \<open>nativeRefresh\<close> (88-100) and
  \<open>nativeNotifyCommitHappened\<close> (102-111) convert their arguments and forward
  them to the engine session behind the handle; \<open>nativeUnbind\<close> (80-86)
  deletes the wrapper. Strings cross the boundary in two ways
  (\<open>GetStringUTFChars\<close> into a \<open>std::string\<close>, or \<open>JStringAccessor\<close> into a
  \<open>StringData\<close>), C++ exceptions become Java exceptions through \<open>CATCH_STD()\<close>,
  and nothing guards against null or stale handles.

  \<^bold>\<open>The theories.\<close>
  \<^item> \<open>Prelude\<close>: the machine types (\<open>jlong\<close> and pointers as \<open>64 word\<close>, bytes
    as \<open>8 word\<close>, Java chars as \<open>16 word\<close>), the two kinds of failure at the
    boundary (\<open>native_exc\<close>: a C++ exception, caught; \<open>ub\<close>: undefined
    behaviour, uncaught), the byte casts and digit lemmas the encoders share.
  \<^item> \<open>JniStrings\<close>: \<open>jstring\<close>; JNI's modified UTF-8 (\<open>mutf8_unit\<close>, \<open>mutf8\<close>)
    and \<open>std::string\<close> from a C string (\<open>c_string\<close>), composed as
    \<open>std_string_of_utf_chars\<close> (lines 50-52 and 67-69); realm-core's UTF-16 to
    UTF-8 conversion (\<open>utf16_to_utf8\<close>) behind \<open>jstring_accessor\<close> (lines 71-72
    and 95-96). Lemmas: no NUL inside modified UTF-8, so \<open>std::string\<close> keeps
    all of it (C6), its decoding round trip and injectivity (C24), that the
    accessor fails exactly on ill-formed UTF-16 (C23), and the exact number of
    bytes each conversion produces per UTF-16 unit against an independent size
    table (\<open>mutf8_unit_size\<close>, \<open>utf8_unit_size\<close>, C28).
  \<^item> \<open>SyncEngine\<close>: the engine as an interface (\<open>sync_engine\<close>, a record of
    the four operations the bridge calls, over any state type \<open>'s\<close>), the
    wrapper \<open>jni_session\<close> and its constructor, \<open>ConvertException\<close> as
    \<open>convert_exception\<close>, the implicit \<open>int64_t\<close> to \<open>uint64_t\<close> conversion of
    the version (\<open>to_version\<close>, line 109: it keeps the bits), and a recording
    engine used only to run concrete examples.
  \<^item> \<open>SessionBridge\<close>: the state \<open>bridge\<close> (live clients, live wrappers by
    address, JNI global references as a multiset), the environment of a call
    (\<open>jni_env\<close>: whether the JVM can allocate the UTF buffer, which address
    \<open>operator new\<close> returns), the outcome (\<open>Returned\<close> value, pending Java
    exception, new state; or \<open>Undefined\<close>), one helper per group of source lines
    (\<open>sync_client_of\<close>, \<open>get_session\<close>, \<open>forward_result\<close>,
    \<open>new_session_handle\<close>, \<open>catch_std\<close>) and the five entry points, each
    following the order of the statements of its C++ body. Lemmas: the store
    invariant \<open>bridge_inv\<close> and its preservation by every entry point, the frame
    of the forwarding calls (\<open>session_step\<close>), and the behaviour of every branch
    (C3, C4, C8, C15 to C22).
  \<^item> \<open>Utf8Codec\<close>: a strict standard UTF-8 decoder (RFC 3629: no overlong
    groups, no encoded surrogates, nothing above U+10FFFF) standing for the
    engine's reading of a \<open>StringData\<close>. Lemmas: it inverts \<open>JStringAccessor\<close>
    on every string the accessor converts (C7); on strings without surrogates
    the two conversions of the bridge give the same bytes exactly when there
    is no U+0000 (C27).
  \<^item> \<open>Lifecycle\<close>: calls from Java as \<open>jcall\<close>, \<open>bridge_step\<close> and \<open>run\<close>,
    reachable states (with the client registry as an interfering component);
    the abstract forwarding specification (\<open>op_forward\<close>, \<open>engine_run\<close>,
    \<open>engine_results\<close>) and the refinement theorem that the bridge implements it
    for every engine (C2); stale-handle aliasing (C13); that unbinding every
    live handle of a reachable state releases every wrapper and global
    reference (C5); and the spec's scenario for every engine and input (C26).
  \<^item> \<open>Threads\<close>: Java threads calling the bridge without a lock. Each entry
    point is split into its thread-local phase (\<open>create_local\<close> lines 45-52,
    \<open>bind_local\<close> 65-72, \<open>refresh_local\<close> 93-96, \<open>notify_local\<close> 108-109) and
    its steps on shared memory: the allocation (line 54) and the \<open>delete\<close>
    (line 85) one step each, a forwarded call two, the dereference and then
    the engine call (lines 75, 98, 109), so that another thread can delete the
    session while the engine runs on it (\<open>call_phase\<close>, \<open>mark_freed\<close>);
    \<open>bridge_step_phases\<close> shows the phases recompose to the sequential model.
    \<open>conc_step\<close> and \<open>conc_run\<close> interleave the threads under any schedule.
    Lemmas: an interleaving has the outcome of the sequential run of its calls
    in the order they completed exactly when no session was deleted under a
    running engine call (C1); an unbind on one thread can free the wrapper of a
    bind another thread already started (C11); and an unbind during an engine
    call gives an outcome no sequential order of the two calls has (C12).
  \<^item> \<open>EngineLifecycle\<close>: the bridge composed with an engine that enforces the
    spec's per-handle lifecycle (\<open>lifecycle_engine\<close>; the spec delegates the
    lifecycle to the engine). Lemma: the composition refines the spec's state
    machine, with a Java exception for exactly the operations it rejects (C14).
  \<^item> \<open>JavaCaller\<close>: the Java side, from the spec (the class is not under
    \<open>src/\<close>): session objects that keep the handle in a field, set it from
    \<open>nativeCreateSession\<close>, pass it to the session methods and clear it after
    \<open>nativeUnbind\<close> (\<open>caller_op\<close>, \<open>caller_step\<close>, \<open>caller_run\<close>), and the
    caller's side of the contract (\<open>contract_ok\<close>, checked before every step
    by \<open>obeys\<close>). Lemmas: the invariant \<open>caller_inv\<close> (distinct objects hold
    distinct live handles, every other address as before the run); a caller
    that keeps the contract never reaches undefined behaviour (C9); and once
    every object is closed the native store is the one the run started from,
    so no wrapper or global reference leaks (C10).
  \<^item> this theory: the path of a new session decodes to exactly the Java path
    (C25).

  \<^bold>\<open>Modelling choices.\<close> A handle and an address are one \<open>64 word\<close>, as the
  \<open>reinterpret_cast\<close> and the \<open>SS\<close>/\<open>SC\<close> macros make them on a 64-bit target.
  The heap is a map from addresses to live wrappers; an address not in it is
  freed or was never allocated, and dereferencing it is
  \<open>DanglingPointerDeref\<close>. Allocation is an input of the call; its contract
  (\<open>fresh_alloc\<close>: not \<open>NULL\<close>, not in use) is a hypothesis where a theorem needs
  it and a premise of the \<open>reachable\<close> rule, and it allows the reuse of freed
  addresses. The engine's calls return a new state and possibly an exception;
  the bridge stores the state in the wrapper and converts the exception. The
  release of the engine session and of the global reference on \<open>delete\<close> is
  the \<open>JNISession\<close> destructor's, which is not under \<open>src/\<close>. All functions
  are total and structurally recursive: no loop of the source needs fuel, and
  every definition evaluates by \<open>simp\<close>. In the thread model the effect of an
  engine call on its session is one atomic step, since the spec delegates the
  thread safety of a session to the engine; the call's dereference is a step
  of its own, and a \<open>delete\<close> between the two is undefined behaviour
  (\<open>SessionFreedDuringCall\<close>), which no sequential run reaches. Modified UTF-8
  follows the JNI specification (each surrogate in three bytes); Android's
  runtime may write a valid surrogate pair in four, so C27 leaves strings with
  surrogates out.

  \<^bold>\<open>Not modelled.\<close> The sync engine's behaviour (outside the repository; an
  interface only), the sync client registry (only the set of live client
  addresses), tracing (\<open>TR_ENTER\<close>) and logging, the text of exception
  messages beyond their kind, allocation failure inside \<open>JStringAccessor\<close> and
  \<open>NewGlobalRef\<close>, and concurrency inside the engine: the effect of an engine
  call on its session is one atomic step of the thread model, and weak memory
  effects are not modelled.
  The spec's redesign proposals (a generation-checked handle arena, a
  two-phase unbind; design notes, section 9) are not code of the repository
  and are not modelled; C11 and C12 (the unbind races) and C13 (stale
  handles) state the hazards they address. Of the Java class only what the spec fixes is
  modelled: when an application opens, uses and closes its sessions is left
  arbitrary (any sequence of \<open>caller_op\<close>), and after a pending Java
  exception the caller simply goes on.

  \<^bold>\<open>Plan for later work.\<close> Every line of the five entry points is covered
  by a definition; what remains lies outside the repository's sources. With
  the code of \<open>JNISession\<close> (\<open>objectserver_shared.hpp\<close>), its constructor and
  destructor and the engine's callbacks into Java through the global
  reference could replace the interface \<open>sync_engine\<close> and the constructor
  \<open>new_jni_session\<close>.
\<close>

section \<open>Properties across components\<close>

text \<open>
  C25: the local path a new session stores is the Java path, recoverable
  exactly: when \<open>nativeCreateSession\<close> returns a non-zero handle for a Java
  path, the wrapper at that handle holds bytes that decode back to the path and
  contain no NUL, so the engine opens the file the Java side named.
\<close>

theorem created_path_decodes:
  assumes "fresh_alloc env st"
    and "nativeCreateSession eng env obj cp (JStr us) st = Returned h ex st'" "h \<noteq> 0"
  shows "\<exists>w. heap st' h = Some w \<and> mutf8_decode (realm_path w) = Some us \<and> 0 \<notin> set (realm_path w)"
  using assms
  by (auto simp: nativeCreateSession_def sync_client_of_def new_session_handle_def new_jni_session_def
      catch_std_def utf_chars_ok_string std_string_of_utf_chars_def c_string_terminated mutf8_no_nul
      mutf8_roundtrip split: if_splits sum.splits option.splits)

theorem created_path_decodes_witness:
  "\<exists>w. heap (\<lparr>clients = {0x10}, heap = [0x20 \<mapsto> \<lparr>realm_path = mutf8 [0, 0x61], java_session_ref = 7,
      sync_session = []\<rparr>], global_refs = {#7#}\<rparr> :: sync_call list bridge) 0x20 = Some w \<and>
     mutf8_decode (realm_path w) = Some [0, 0x61] \<and> 0 \<notin> set (realm_path w)"
proof -
  let ?st = "\<lparr>clients = {0x10::addr}, heap = Map.empty, global_refs = {#}\<rparr> :: sync_call list bridge"
  let ?env = "\<lparr>utf_chars_ok = True, new_result = Some (0x20::addr)\<rparr>"
  have f: "fresh_alloc ?env ?st" by (simp add: fresh_alloc_def)
  have r: "nativeCreateSession recording_engine ?env 7 0x10 (JStr [0, 0x61]) ?st =
     Returned 0x20 None \<lparr>clients = {0x10}, heap = [0x20 \<mapsto> \<lparr>realm_path = mutf8 [0, 0x61],
       java_session_ref = 7, sync_session = []\<rparr>], global_refs = {#7#}\<rparr>"
    by (simp add: nativeCreateSession_def sync_client_of_def utf_chars_ok_string
        new_session_handle_def new_jni_session_def recording_engine_def)
  show ?thesis using created_path_decodes [OF f r] by simp
qed

end
